theory Spec2Isabelle
  imports Main
begin

section \<open>The file system seen by rpmconf\<close>

text \<open>
  \<^verbatim>\<open>rpmconf.py\<close> touches the disk only through \<^verbatim>\<open>os\<close>, \<^verbatim>\<open>os.path\<close>, \<^verbatim>\<open>shutil\<close> and
  \<^verbatim>\<open>filecmp\<close>. The disk is a map from path names to nodes. A node is a regular file
  (its bytes and its modification time) or a symbolic link (the path it points to, taken
  as a key of the same map: link targets are absolute paths here, so that the text
  \<^verbatim>\<open>os.readlink\<close> returns is the path the link resolves to). Configuration files and their \<^verbatim>\<open>.rpmnew\<close>, \<^verbatim>\<open>.rpmsave\<close>,
  \<^verbatim>\<open>.rpmorig\<close> siblings are files or links, so directories, hard links and permissions are
  left out of this part of the model; the directory walk of the orphan scan has its own
  model further down.
\<close>

datatype node = File (content: string) (mtime: nat) | Symlink (target: string)

type_synonym filesystem = "string \<Rightarrow> node option"

datatype exc =
    FileNotFoundError
  | FileExistsError
  | SameFileError
  | TooManyLinks
  | CalledProcessError nat
  | UnicodeDecodeError
  | EOFError
  | KeyboardInterrupt

text \<open>
  Path resolution follows symbolic links; the kernel gives up with \<^verbatim>\<open>ELOOP\<close> after 40
  links. \<open>follow n\<close> looks at no more than \<open>n\<close> nodes and returns the path of the first
  one that is not a link (which may be absent from the disk).
\<close>

fun follow :: "nat \<Rightarrow> filesystem \<Rightarrow> string \<Rightarrow> string option" where
  "follow 0 fs p = None"
| "follow (Suc n) fs p =
     (case fs p of
        Some (Symlink t) \<Rightarrow> follow n fs t
      | _ \<Rightarrow> Some p)"

definition realpath :: "filesystem \<Rightarrow> string \<Rightarrow> string option" where
  "realpath fs p = follow 41 fs p"

text \<open>
  \<^verbatim>\<open>os.stat\<close>: the bytes and the modification time of the regular file a path
  resolves to, or the \<^verbatim>\<open>OSError\<close> it raises. (\<open>follow\<close> never stops at a link, so
  the third case is there for totality only.)
\<close>

definition os_stat :: "filesystem \<Rightarrow> string \<Rightarrow> exc + (string \<times> nat)" where
  "os_stat fs p =
     (case realpath fs p of
        None \<Rightarrow> Inl TooManyLinks
      | Some q \<Rightarrow>
         (case fs q of
            None \<Rightarrow> Inl FileNotFoundError
          | Some (File c m) \<Rightarrow> Inr (c, m)
          | Some (Symlink _) \<Rightarrow> Inl TooManyLinks))"

text \<open>\<^verbatim>\<open>os.path.exists\<close> follows links and turns every \<^verbatim>\<open>OSError\<close> into \<^verbatim>\<open>False\<close>.\<close>

definition path_exists :: "filesystem \<Rightarrow> string \<Rightarrow> bool" where
  "path_exists fs p = (case os_stat fs p of Inl _ \<Rightarrow> False | Inr _ \<Rightarrow> True)"

definition path_lexists :: "filesystem \<Rightarrow> string \<Rightarrow> bool" where
  "path_lexists fs p = (fs p \<noteq> None)"

definition path_islink :: "filesystem \<Rightarrow> string \<Rightarrow> bool" where
  "path_islink fs p = (case fs p of Some (Symlink _) \<Rightarrow> True | _ \<Rightarrow> False)"

text \<open>\<^verbatim>\<open>os.access(path, os.F_OK)\<close>: the path resolves to something.\<close>

definition os_access :: "filesystem \<Rightarrow> string \<Rightarrow> bool" where
  "os_access fs p = path_exists fs p"

text \<open>\<^verbatim>\<open>os.readlink\<close>, called by the source only after \<^verbatim>\<open>os.path.islink\<close> said yes.\<close>

definition os_readlink :: "filesystem \<Rightarrow> string \<Rightarrow> exc + string" where
  "os_readlink fs p =
     (case fs p of Some (Symlink t) \<Rightarrow> Inr t | _ \<Rightarrow> Inl FileNotFoundError)"

definition os_unlink :: "filesystem \<Rightarrow> string \<Rightarrow> exc + filesystem" where
  "os_unlink fs p =
     (case fs p of None \<Rightarrow> Inl FileNotFoundError | Some _ \<Rightarrow> Inr (fs(p := None)))"

definition os_symlink :: "filesystem \<Rightarrow> string \<Rightarrow> string \<Rightarrow> exc + filesystem" where
  "os_symlink fs linkto dst =
     (case fs dst of
        Some _ \<Rightarrow> Inl FileExistsError
      | None \<Rightarrow> Inr (fs(dst \<mapsto> Symlink linkto)))"

text \<open>
  \<^verbatim>\<open>filecmp.cmp(f1, f2)\<close> with its default \<^verbatim>\<open>shallow=True\<close>: both paths are stat'ed (a
  missing one raises); two regular files with the same size and modification time are
  taken to be equal without being read; files of different sizes are different; otherwise
  the bytes are compared.
\<close>

definition filecmp_cmp :: "filesystem \<Rightarrow> string \<Rightarrow> string \<Rightarrow> exc + bool" where
  "filecmp_cmp fs f1 f2 =
     (case os_stat fs f1 of
        Inl e \<Rightarrow> Inl e
      | Inr (c1, m1) \<Rightarrow>
         (case os_stat fs f2 of
            Inl e \<Rightarrow> Inl e
          | Inr (c2, m2) \<Rightarrow>
              if length c1 = length c2 \<and> m1 = m2 then Inr True
              else if length c1 \<noteq> length c2 then Inr False
              else Inr (c1 = c2)))"

text \<open>
  \<^verbatim>\<open>shutil.copy2(src, dst)\<close>: refuses to copy a file onto itself, reads \<^verbatim>\<open>src\<close> through
  its links, writes through the links of \<^verbatim>\<open>dst\<close> (creating the file a dangling link
  points to) and copies the modification time with the bytes.
\<close>

definition samefile :: "filesystem \<Rightarrow> string \<Rightarrow> string \<Rightarrow> bool" where
  "samefile fs a b =
     (path_exists fs a \<and> path_exists fs b \<and> realpath fs a = realpath fs b)"

definition shutil_copy2 :: "filesystem \<Rightarrow> string \<Rightarrow> string \<Rightarrow> exc + filesystem" where
  "shutil_copy2 fs src dst =
     (if samefile fs src dst then Inl SameFileError
      else case os_stat fs src of
             Inl e \<Rightarrow> Inl e
           | Inr (c, m) \<Rightarrow>
              (case realpath fs dst of
                 None \<Rightarrow> Inl TooManyLinks
               | Some q \<Rightarrow> Inr (fs(q \<mapsto> File c m))))"

section \<open>What the program prints, reads and returns\<close>

text \<open>
  Everything the program shows is an event appended to a trace. \<open>Print s\<close> is
  \<^verbatim>\<open>print(s)\<close>; \<open>Ask q\<close> is the question \<^verbatim>\<open>input(q)\<close> writes before it blocks;
  \<open>Listing\<close> is the output of \<^verbatim>\<open>/usr/bin/ls -ltrd\<close> on two paths (with \<^verbatim>\<open>--context\<close>
  when the flag is set); \<open>Pager msg d\<close> is one call of \<^verbatim>\<open>pydoc.pager\<close> on the notes
  \<open>msg\<close> followed by the diff \<open>d\<close>; \<open>Stopped\<close> is the process sending itself
  \<^verbatim>\<open>SIGSTOP\<close> and being resumed. The text of a diff is the work of \<^verbatim>\<open>difflib\<close> or of
  \<^verbatim>\<open>/usr/bin/diff\<close>, so a diff is kept as the arguments it was asked for:
  \<open>Unified fromlines tolines fromfile tofile fromdate todate\<close> for
  \<^verbatim>\<open>difflib.unified_diff\<close> (a date is \<open>None\<close> for the empty string and \<open>Some m\<close> for
  \<^verbatim>\<open>time.ctime(m)\<close>), \<open>External_diff text\<close> for the output \<open>text\<close> that
  \<^verbatim>\<open>/usr/bin/diff -u\<close> gave.
\<close>

datatype diff_text =
    Unified string string string string "nat option" "nat option"
  | External_diff string

datatype event =
    Print string
  | Print_repr string
  | Ask string
  | Listing bool string string
  | Pager string diff_text
  | Stopped
  | Log_error string
  | Log_info string
  | Stderr string

record world =
  disk :: filesystem
  out :: "event list"

datatype outcome = Done | SysExit nat | Raised exc

definition emit :: "event \<Rightarrow> world \<Rightarrow> world" where
  "emit e w = w\<lparr>out := out w @ [e]\<rparr>"

text \<open>The attributes of \<^verbatim>\<open>RpmConf\<close> that the modelled methods read.\<close>

record rpmconf =
  debug :: bool
  selinux :: bool
  frontend :: "string option"
  unattended :: "string option"
  exclude :: "string list"
  root :: "string option"

section \<open>Removing and overwriting\<close>

text \<open>
  \<^verbatim>\<open>_copy\<close> (lines 238 to 255) recreates a symbolic link under the new name, replacing
  what is there, and copies anything else with \<^verbatim>\<open>shutil.copy2\<close>. \<^verbatim>\<open>_remove\<close> (lines 257 to
  267) and \<^verbatim>\<open>_overwrite\<close> (lines 269 to 274) only print a command when \<^verbatim>\<open>self.debug\<close> is
  set. An exception of the \<^verbatim>\<open>os\<close> call is the outcome \<open>Raised\<close>.
\<close>

definition copy :: "string \<Rightarrow> string \<Rightarrow> world \<Rightarrow> outcome \<times> world" where
  "copy src dst w =
     (if path_islink (disk w) src then
        (case os_readlink (disk w) src of
           Inl e \<Rightarrow> (Raised e, w)
         | Inr linkto \<Rightarrow>
            (case os_symlink (disk w) linkto dst of
               Inr d \<Rightarrow> (Done, w\<lparr>disk := d\<rparr>)
             | Inl FileExistsError \<Rightarrow>
                (case os_unlink (disk w) dst of
                   Inl e \<Rightarrow> (Raised e, w)
                 | Inr d \<Rightarrow>
                    (case os_symlink d linkto dst of
                       Inl e \<Rightarrow> (Raised e, w\<lparr>disk := d\<rparr>)
                     | Inr d' \<Rightarrow> (Done, w\<lparr>disk := d'\<rparr>)))
             | Inl e \<Rightarrow> (Raised e, w)))
      else
        (case shutil_copy2 (disk w) src dst of
           Inl e \<Rightarrow> (Raised e, w)
         | Inr d \<Rightarrow> (Done, w\<lparr>disk := d\<rparr>)))"

definition remove :: "rpmconf \<Rightarrow> string \<Rightarrow> world \<Rightarrow> outcome \<times> world" where
  "remove self conf_file w =
     (if debug self then (Done, emit (Print (''rm '' @ conf_file)) w)
      else
        (case os_unlink (disk w) conf_file of
           Inl e \<Rightarrow> (Raised e, w)
         | Inr d \<Rightarrow> (Done, w\<lparr>disk := d\<rparr>)))"

definition overwrite :: "rpmconf \<Rightarrow> string \<Rightarrow> string \<Rightarrow> world \<Rightarrow> outcome \<times> world" where
  "overwrite self src dst w =
     (if debug self then
        (Done, emit (Print (''cp --no-dereference '' @ src @ '' '' @ dst)) w)
      else
        (case copy src dst w of
           (Done, w') \<Rightarrow> remove self src w'
         | r \<Rightarrow> r))"

section \<open>Dry run\<close>

text \<open>
  C10. With \<^verbatim>\<open>debug=True\<close>, \<^verbatim>\<open>_remove\<close> and \<^verbatim>\<open>_overwrite\<close> return normally for every
  path and every disk, leave the disk exactly as it was, and add one line to the output:
  the command they would have run.
\<close>

theorem dry_run_frame:
  "debug self \<Longrightarrow>
     remove self conf_file w = (Done, w\<lparr>out := out w @ [Print (''rm '' @ conf_file)]\<rparr>)
   \<and> overwrite self src dst w =
       (Done, w\<lparr>out := out w @ [Print (''cp --no-dereference '' @ src @ '' '' @ dst)]\<rparr>)
   \<and> disk (snd (remove self conf_file w)) = disk w
   \<and> disk (snd (overwrite self src dst w)) = disk w"
  by (simp add: remove_def overwrite_def emit_def)

theorem dry_run_frame_witness:
  "debug \<lparr>debug = True, selinux = False, frontend = None, unattended = None,
          exclude = [], root = None\<rparr>
   \<and> disk (snd (remove
        \<lparr>debug = True, selinux = False, frontend = None, unattended = None,
         exclude = [], root = None\<rparr>
        ''/etc/x.conf.rpmnew''
        \<lparr>disk = [''/etc/x.conf.rpmnew'' \<mapsto> File ''B'' 2], out = []\<rparr>))
       ''/etc/x.conf.rpmnew'' = Some (File ''B'' 2)
   \<and> out (snd (overwrite
        \<lparr>debug = True, selinux = False, frontend = None, unattended = None,
         exclude = [], root = None\<rparr>
        ''/etc/x.conf.rpmnew'' ''/etc/x.conf''
        \<lparr>disk = [''/etc/x.conf.rpmnew'' \<mapsto> File ''B'' 2], out = []\<rparr>))
       = [Print ''cp --no-dereference /etc/x.conf.rpmnew /etc/x.conf'']"
  using dry_run_frame [of
      "\<lparr>debug = True, selinux = False, frontend = None, unattended = None,
        exclude = [], root = None\<rparr>"
      "''/etc/x.conf.rpmnew''"
      "\<lparr>disk = [''/etc/x.conf.rpmnew'' \<mapsto> File ''B'' 2], out = []\<rparr>"
      "''/etc/x.conf.rpmnew''" "''/etc/x.conf''"]
  by simp

section \<open>Showing differences\<close>

text \<open>
  What the program is given from outside: which file contents decode as text, the
  \<^verbatim>\<open>MERGE\<close> environment variable, what running an external command does (the executable
  is not found, or it exits with a status and leaves a disk behind), the name
  \<^verbatim>\<open>tempfile.mkstemp\<close> picks, and the clock. \<open>diff_u file1 file2\<close> is
  \<^verbatim>\<open>subprocess.Popen(["/usr/bin/diff", "-u", file1, file2], stdout=PIPE,
  universal_newlines=True).communicate()[0]\<close>: the output of the command decoded as text,
  or the exception raised (\<^verbatim>\<open>FileNotFoundError\<close> when the command is not installed,
  \<^verbatim>\<open>UnicodeDecodeError\<close> when its output does not decode). \<open>unicode_upper\<close> is
  \<^verbatim>\<open>str.upper()\<close> on text with characters beyond ASCII.
\<close>

datatype process = Not_found | Exited nat filesystem

record environment =
  decodes :: "string \<Rightarrow> bool"
  environ_MERGE :: "string option"
  run :: "string list \<Rightarrow> filesystem \<Rightarrow> process"
  mkstemp :: "filesystem \<Rightarrow> string"
  clock :: nat
  diff_u :: "string \<Rightarrow> string \<Rightarrow> filesystem \<Rightarrow> exc + string"
  unicode_upper :: "string \<Rightarrow> string"

definition is_broken_symlink :: "filesystem \<Rightarrow> string \<Rightarrow> bool" where
  "is_broken_symlink fs file1 = (path_islink fs file1 \<and> path_exists fs file1)"

definition err_msg_template :: "string \<Rightarrow> string" where
  "err_msg_template f =
     ''Warning: file '' @ f @ '' is broken symlink. I'm using /dev/null instead.\<newline>''"

definition missing_file_template :: "string \<Rightarrow> string" where
  "missing_file_template f =
     ''Warning: file '' @ f @ '' is missing. I'm using /dev/null instead.\<newline>''"

definition symlink_info :: "string \<Rightarrow> string \<Rightarrow> string" where
  "symlink_info f t =
     ''Info: '' @ [CHR 0x27] @ f @ [CHR 0x27] @ '' is symlink to '' @ [CHR 0x27] @ t
       @ [CHR 0x27] @ ''.\<newline>''"

text \<open>
  \<^verbatim>\<open>show_diff\<close> runs the same block on \<^verbatim>\<open>file1\<close> (setting \<^verbatim>\<open>fromdate\<close>) and on
  \<^verbatim>\<open>file2\<close> (setting \<^verbatim>\<open>todate\<close>). \<open>diff_side\<close> is that block: it returns what the block
  appends to \<^verbatim>\<open>err_msg\<close>, the path the side is read from, and the side's date.
\<close>

definition diff_side :: "filesystem \<Rightarrow> string \<Rightarrow> exc + (string \<times> string \<times> nat option)" where
  "diff_side fs f =
     (if path_islink fs f then
        (case os_readlink fs f of
           Inl e \<Rightarrow> Inl e
         | Inr t \<Rightarrow>
            if is_broken_symlink fs f then
              (case os_stat fs f of
                 Inl e \<Rightarrow> Inl e
               | Inr (c, m) \<Rightarrow> Inr (symlink_info f t, f, Some m))
            else Inr (symlink_info f t @ err_msg_template f, ''/dev/null'', None))
      else if \<not> path_exists fs f then Inr (missing_file_template f, ''/dev/null'', None)
      else
        (case os_stat fs f of
           Inl e \<Rightarrow> Inl e
         | Inr (c, m) \<Rightarrow> Inr ([], f, Some m)))"

text \<open>\<^verbatim>\<open>open(f).readlines()\<close>: the null device reads as nothing.\<close>

definition readlines :: "environment \<Rightarrow> filesystem \<Rightarrow> string \<Rightarrow> exc + string" where
  "readlines env fs f =
     (if f = ''/dev/null'' then Inr []
      else case os_stat fs f of
             Inl e \<Rightarrow> Inl e
           | Inr (c, m) \<Rightarrow> if decodes env c then Inr c else Inl UnicodeDecodeError)"

text \<open>
  The \<^verbatim>\<open>except UnicodeDecodeError\<close> branch (lines 215 to 224) and the call of the pager
  after it. With \<^verbatim>\<open>stdout=PIPE\<close> the first element of \<^verbatim>\<open>communicate()\<close> is never
  \<^verbatim>\<open>None\<close>, so line 224 is not reached. An exception raised here leaves \<^verbatim>\<open>show_diff\<close>
  before anything is paged.
\<close>

definition external_diff ::
  "environment \<Rightarrow> string \<Rightarrow> string \<Rightarrow> string \<Rightarrow> world \<Rightarrow> outcome \<times> world" where
  "external_diff env err_msg file1 file2 w =
     (case diff_u env file1 file2 (disk w) of
        Inl e \<Rightarrow> (Raised e, w)
      | Inr d \<Rightarrow> (Done, emit (Pager err_msg (External_diff d)) w))"

definition show_diff :: "environment \<Rightarrow> string \<Rightarrow> string \<Rightarrow> world \<Rightarrow> outcome \<times> world" where
  "show_diff env file1 file2 w =
     (case diff_side (disk w) file1 of
        Inl e \<Rightarrow> (Raised e, w)
      | Inr (msg1, f1, fromdate) \<Rightarrow>
         (case diff_side (disk w) file2 of
            Inl e \<Rightarrow> (Raised e, w)
          | Inr (msg2, f2, todate) \<Rightarrow>
             (case readlines env (disk w) f1 of
                Inl e \<Rightarrow>
                  if e = UnicodeDecodeError
                  then external_diff env (msg1 @ msg2) f1 f2 w
                  else (Raised e, w)
              | Inr fromlines \<Rightarrow>
                 (case readlines env (disk w) f2 of
                    Inl e \<Rightarrow>
                      if e = UnicodeDecodeError
                      then external_diff env (msg1 @ msg2) f1 f2 w
                      else (Raised e, w)
                  | Inr tolines \<Rightarrow>
                      (Done, emit (Pager (msg1 @ msg2)
                                     (Unified fromlines tolines f1 f2 fromdate todate)) w)))))"

definition show_cond_diff ::
  "environment \<Rightarrow> string \<Rightarrow> string \<Rightarrow> string \<Rightarrow> world \<Rightarrow> outcome \<times> world" where
  "show_cond_diff env file_ex file1 file2 w =
     (if path_lexists (disk w) file_ex then show_diff env file1 file2 w else (Done, w))"

subsection \<open>The presentation the specification describes\<close>

text \<open>
  The specification's words, side by side with the code: a side is replaced by the null
  file when it is missing or a broken symbolic link (a link whose target does not
  resolve); its note is the link annotation (for any link) followed by the warning (for
  a replaced side), written out here letter by letter; its timestamp is the modification
  time of the file it resolves to, and nothing for a replaced side. When both sides decode
  as text the diff is the unified diff of what the two shown names hold, under those names
  and timestamps; when one does not, it is whatever \<^verbatim>\<open>/usr/bin/diff -u\<close> gives for the
  two shown names, and if that command cannot be run or its output does not decode,
  nothing is shown.
\<close>

definition spec_broken_link :: "filesystem \<Rightarrow> string \<Rightarrow> bool" where
  "spec_broken_link fs f = (path_islink fs f \<and> \<not> path_exists fs f)"








subsection \<open>The code presents each side as specified\<close>

lemma follow_numeral:
  "follow (numeral k) fs p =
     (case fs p of Some (Symlink t) \<Rightarrow> follow (pred_numeral k) fs t | _ \<Rightarrow> Some p)"
  by (simp add: numeral_eq_Suc)

lemma realpath_file: "fs p = Some (File c m) \<Longrightarrow> realpath fs p = Some p"
  by (simp add: realpath_def follow_numeral)

lemma realpath_absent: "fs p = None \<Longrightarrow> realpath fs p = Some p"
  by (simp add: realpath_def follow_numeral)

lemma os_stat_file: "fs p = Some (File c m) \<Longrightarrow> os_stat fs p = Inr (c, m)"
  by (simp add: os_stat_def realpath_file)

lemma os_stat_absent: "fs p = None \<Longrightarrow> os_stat fs p = Inl FileNotFoundError"
  by (simp add: os_stat_def realpath_absent)

lemma path_exists_stat: "path_exists fs p \<Longrightarrow> \<exists>c m. os_stat fs p = Inr (c, m)"
  by (auto simp: path_exists_def split: sum.splits)













section \<open>Listing, reading a choice, merging\<close>

text \<open>
  \<^verbatim>\<open>_ls_conf_file\<close>: \<^verbatim>\<open>/usr/bin/ls\<close> is taken to be installed and to succeed on the two
  paths (the base, or \<^verbatim>\<open>/dev/null\<close> in its place, and the artifact the caller has just
  found to be there).
\<close>

definition ls_conf_file :: "rpmconf \<Rightarrow> string \<Rightarrow> string \<Rightarrow> world \<Rightarrow> world" where
  "ls_conf_file self conf_file other_file w =
     (let w1 = emit (Print (''Configuration file '' @ [CHR 0x27] @ conf_file @ [CHR 0x27])) w
      in if \<not> path_exists (disk w1) conf_file
         then emit (Listing (selinux self) ''/dev/null'' other_file)
                (emit (Print ''File is missing. Using /dev/null instead.'') w1)
         else emit (Listing (selinux self) conf_file other_file) w1)"

text \<open>
  The keyboard is the list of what the coming calls of \<^verbatim>\<open>input()\<close> meet: a line, the
  end of input (\<^verbatim>\<open>EOFError\<close>) or \<^verbatim>\<open>Ctrl-C\<close> (\<^verbatim>\<open>KeyboardInterrupt\<close>). Reading past the
  end of the list meets the end of input.
\<close>

datatype key = Line string | End_of_input | Interrupt

definition next_key :: "key list \<Rightarrow> key \<times> key list" where
  "next_key inp = (case inp of [] \<Rightarrow> (End_of_input, []) | k # rest \<Rightarrow> (k, rest))"

definition flush_input ::
  "string \<Rightarrow> key list \<Rightarrow> world \<Rightarrow> (exc + string) \<times> world \<times> key list" where
  "flush_input question inp w =
     (case next_key inp of
        (Line s, rest) \<Rightarrow> (Inr s, emit (Ask question) w, rest)
      | (End_of_input, rest) \<Rightarrow> (Inl EOFError, emit (Ask question) w, rest)
      | (Interrupt, rest) \<Rightarrow> (Inl KeyboardInterrupt, emit (Ask question) w, rest))"

text \<open>
  \<^verbatim>\<open>str.upper()\<close>. Characters are bytes here. On a line of ASCII characters (bit 7
  clear in each) the letters \<^verbatim>\<open>a\<close> to \<^verbatim>\<open>z\<close> become \<^verbatim>\<open>A\<close> to \<^verbatim>\<open>Z\<close> and nothing else
  changes. Any other line is the encoding of text with characters beyond ASCII, and its
  upper case is what the environment says: Python maps the dotless i to \<^verbatim>\<open>I\<close> and the
  long s to \<^verbatim>\<open>S\<close>, for instance.
\<close>

definition upper_char :: "char \<Rightarrow> char" where
  "upper_char c =
     (case map_of (zip ''abcdefghijklmnopqrstuvwxyz'' ''ABCDEFGHIJKLMNOPQRSTUVWXYZ'') c of
        None \<Rightarrow> c
      | Some u \<Rightarrow> u)"

definition is_ascii :: "string \<Rightarrow> bool" where
  "is_ascii s = list_all (\<lambda>c. \<not> digit7 c) s"

definition upper :: "environment \<Rightarrow> string \<Rightarrow> string" where
  "upper env s = (if is_ascii s then map upper_char s else unicode_upper env s)"

text \<open>Running one thing after another; an exit or an exception stops the sequence.\<close>

definition and_then ::
  "outcome \<times> world \<Rightarrow> (world \<Rightarrow> outcome \<times> world) \<Rightarrow> outcome \<times> world" where
  "and_then r k = (case r of (Done, w) \<Rightarrow> k w | _ \<Rightarrow> r)"

text \<open>
  \<^verbatim>\<open>subprocess.check_call\<close>: \<^verbatim>\<open>FileNotFoundError\<close> when the executable is not found,
  \<^verbatim>\<open>CalledProcessError\<close> when it exits with a status other than 0.
\<close>

definition check_call :: "environment \<Rightarrow> string list \<Rightarrow> world \<Rightarrow> outcome \<times> world" where
  "check_call env args w =
     (case run env args (disk w) of
        Not_found \<Rightarrow> (Raised FileNotFoundError, w)
      | Exited n d \<Rightarrow>
          if n = 0 then (Done, w\<lparr>disk := d\<rparr>)
          else (Raised (CalledProcessError n), w\<lparr>disk := d\<rparr>))"

definition not_merged :: "outcome \<times> world \<Rightarrow> outcome \<times> world" where
  "not_merged r =
     (case r of
        (Raised (CalledProcessError n), w) \<Rightarrow> (Done, emit (Print ''Files not merged.'') w)
      | _ \<Rightarrow> r)"

definition no_frontend_msg :: string where
  "no_frontend_msg =
     ''You did not select any frontend for merge.\<newline>''
     @ ''      Define it with environment variable 'MERGE' or flag -f.''"

text \<open>
  The body of the \<^verbatim>\<open>try\<close> of \<^verbatim>\<open>_merge_conf_files\<close>. \<open>sdiff_finish\<close> is the three lines
  that both the \<^verbatim>\<open>try\<close> and the \<^verbatim>\<open>except\<close> of the \<^verbatim>\<open>sdiff\<close> branch run.
\<close>

definition sdiff_finish ::
  "rpmconf \<Rightarrow> string \<Rightarrow> string \<Rightarrow> string \<Rightarrow> world \<Rightarrow> outcome \<times> world" where
  "sdiff_finish self tmp_file_name conf_file other_file w =
     and_then (remove self other_file w)
       (\<lambda>w. and_then (copy tmp_file_name conf_file w) (remove self tmp_file_name))"

definition merge_try ::
  "rpmconf \<Rightarrow> environment \<Rightarrow> string \<Rightarrow> string \<Rightarrow> world \<Rightarrow> outcome \<times> world" where
  "merge_try self env conf_file other_file w =
     (if frontend self = Some ''vimdiff'' then
        check_call env [''/usr/bin/vimdiff'', conf_file, other_file] w
      else if frontend self = Some ''gvimdiff'' then
        check_call env [''/usr/bin/gvimdiff'', conf_file, other_file] w
      else if frontend self = Some ''meld'' then
        check_call env [''/usr/bin/meld'', conf_file, other_file] w
      else if frontend self = Some ''diffuse'' then
        not_merged (check_call env [''/usr/bin/diffuse'', conf_file, other_file] w)
      else if frontend self = Some ''kdiff3'' then
        not_merged
          (and_then
             (check_call env [''/usr/bin/kdiff3'', conf_file, other_file, ''-o'', conf_file] w)
             (\<lambda>w. and_then (remove self other_file w) (remove self (conf_file @ ''.orig''))))
      else if frontend self = Some ''sdiff'' then
        (let tmp_file_name = mkstemp env (disk w);
             w0 = w\<lparr>disk := (disk w)(tmp_file_name \<mapsto> File [] (clock env))\<rparr>
         in case check_call env
                   [''/usr/bin/sdiff'', ''-o'', tmp_file_name, conf_file, other_file] w0 of
              (Done, w1) \<Rightarrow> sdiff_finish self tmp_file_name conf_file other_file w1
            | (Raised (CalledProcessError n), w1) \<Rightarrow>
                if n = 1 then sdiff_finish self tmp_file_name conf_file other_file w1
                else (Done, emit (Print ''Files not merged.'') w1)
            | r \<Rightarrow> r)
      else if (frontend self = Some ''env'' \<or> frontend self = None)
              \<and> environ_MERGE env \<noteq> None then
        (case environ_MERGE env of
           None \<Rightarrow> (Done, w)
         | Some merge_tool \<Rightarrow>
             check_call env [merge_tool, conf_file, other_file] (emit (Print_repr merge_tool) w))
      else (SysExit 2, emit (Log_error no_frontend_msg) w))"

definition merge_conf_files ::
  "rpmconf \<Rightarrow> environment \<Rightarrow> string \<Rightarrow> string \<Rightarrow> world \<Rightarrow> outcome \<times> world" where
  "merge_conf_files self env conf_file other_file w =
     (case merge_try self env conf_file other_file w of
        (Raised FileNotFoundError, w') \<Rightarrow>
          (SysExit 4, emit (Stderr ''No such file or directory\<newline>'') w')
      | r \<Rightarrow> r)"
section \<open>Resolving one configuration file\<close>

text \<open>
  Both handlers open with the same test:
  \<^verbatim>\<open>not (is_broken_symlink(conf_file) or is_broken_symlink(other_file))
    and os.path.exists(conf_file) and filecmp.cmp(conf_file, other_file)\<close>.
  \<^verbatim>\<open>and\<close> stops at the first false operand, so \<^verbatim>\<open>filecmp.cmp\<close> (which may raise) runs
  only when the operands before it are true.
\<close>

definition already_merged :: "filesystem \<Rightarrow> string \<Rightarrow> string \<Rightarrow> exc + bool" where
  "already_merged fs conf_file other_file =
     (if \<not> (is_broken_symlink fs conf_file \<or> is_broken_symlink fs other_file)
         \<and> path_exists fs conf_file
      then filecmp_cmp fs conf_file other_file
      else Inr False)"

definition prompt_rpmnew :: string where
  "prompt_rpmnew =
     '' ==> Package distributor has shipped an updated version.\<newline>''
   @ ''   What would you like to do about it ?  Your options are:\<newline>''
   @ ''    Y or I  : install the package maintainer's version\<newline>''
   @ ''    N or O  : keep your currently-installed version (and delete .rpmsave)\<newline>''
   @ ''      D     : show the differences between the versions\<newline>''
   @ ''      M     : merge configuration files\<newline>''
   @ ''      Z     : background this process to examine the situation\<newline>''
   @ ''      S     : skip this file\<newline>''
   @ '' The default action is to keep your current version.\<newline>''
   @ ''*** aliases (Y/I/N/O/D/M/Z/S) [default=N] ? ''"

definition prompt_rpmsave :: string where
  "prompt_rpmsave =
     '' ==> Package distributor has shipped an updated version.\<newline>''
   @ '' ==> Maintainer forced upgrade. Your old version has been backed up.\<newline>''
   @ ''   What would you like to do about it?  Your options are:\<newline>''
   @ ''    Y or I  : install (keep) the package maintainer's version\<newline>''
   @ ''    N or O  : return back to your original file\<newline>''
   @ ''      D     : show the differences between the versions\<newline>''
   @ ''      M     : merge configuration files\<newline>''
   @ ''      Z     : background this process to examine the situation\<newline>''
   @ ''      S     : skip this file\<newline>''
   @ '' The default action is to keep package maintainer's version.\<newline>''
   @ ''*** aliases (Y/I/N/O/M/D/Z/S) [default=Y] ? ''"

definition removed_msg :: "string \<Rightarrow> string" where
  "removed_msg other_file = ''File '' @ other_file @ '' was removed by 3rd party. Skipping.''"

definition merged_msg :: "string \<Rightarrow> string" where
  "merged_msg other_file = ''File '' @ other_file @ '' has been merged.''"

text \<open>
  One turn of the \<^verbatim>\<open>while\<close> loop either leaves the method (\<open>Stop\<close>: a \<^verbatim>\<open>return\<close>, a
  \<^verbatim>\<open>sys.exit\<close> or an exception) or reaches the loop test again with a value of
  \<^verbatim>\<open>option\<close> (\<open>Next\<close>).
\<close>

datatype turn = Stop outcome world | Next string world

text \<open>The turn up to and including the read: the guard, the listing, the prompt, the question.\<close>

definition ask_rpmnew :: "rpmconf \<Rightarrow> string \<Rightarrow> string \<Rightarrow> world \<Rightarrow> world" where
  "ask_rpmnew self conf_file other_file w =
     emit (Ask ''Your choice: '')
       (emit (Print prompt_rpmnew) (ls_conf_file self conf_file other_file w))"

definition ask_rpmsave :: "rpmconf \<Rightarrow> string \<Rightarrow> string \<Rightarrow> world \<Rightarrow> world" where
  "ask_rpmsave self conf_file other_file w =
     emit (Ask ''Your choice: '')
       (emit (Print prompt_rpmsave) (ls_conf_file self conf_file other_file w))"

text \<open>The turn after the read, in \<^verbatim>\<open>_handle_rpmnew\<close> (lines 416 to 430).\<close>

definition chosen_rpmnew ::
  "rpmconf \<Rightarrow> environment \<Rightarrow> string \<Rightarrow> string \<Rightarrow> string \<Rightarrow> world \<Rightarrow> turn" where
  "chosen_rpmnew self env conf_file other_file option0 w =
     (if \<not> os_access (disk w) other_file
      then Stop Done (emit (Print (removed_msg other_file)) w)
      else
        let option = (if option0 = [] then ''N'' else option0) in
        case (if option = ''D'' then show_diff env conf_file other_file w else (Done, w)) of
          (Done, w1) \<Rightarrow>
            (let w2 = (if option = ''Z''
                       then emit Stopped (emit (Print ''Run command 'fg' to continue'') w1)
                       else w1)
             in if option = ''M'' then
                  (case merge_conf_files self env conf_file other_file w2 of
                     (Done, w3) \<Rightarrow>
                       if \<not> os_access (disk w3) other_file
                       then Stop Done (emit (Print (merged_msg other_file)) w3)
                       else Next option w3
                   | (r, w3) \<Rightarrow> Stop r w3)
                else Next option w2)
        | (r, w1) \<Rightarrow> Stop r w1)"

definition turn_rpmnew ::
  "rpmconf \<Rightarrow> environment \<Rightarrow> string \<Rightarrow> string \<Rightarrow> key \<Rightarrow> world \<Rightarrow> turn" where
  "turn_rpmnew self env conf_file other_file k w =
     (if \<not> os_access (disk w) other_file
      then Stop Done (emit (Print (removed_msg other_file)) w)
      else
        case k of
          Line s \<Rightarrow>
            chosen_rpmnew self env conf_file other_file (upper env s)
              (ask_rpmnew self conf_file other_file w)
        | End_of_input \<Rightarrow>
            chosen_rpmnew self env conf_file other_file ''S''
              (ask_rpmnew self conf_file other_file w)
        | Interrupt \<Rightarrow> Stop (SysExit 1) (ask_rpmnew self conf_file other_file w))"

text \<open>The two statements after the loop of \<^verbatim>\<open>_handle_rpmnew\<close>.\<close>

definition finish_rpmnew ::
  "rpmconf \<Rightarrow> string \<Rightarrow> string \<Rightarrow> string \<Rightarrow> world \<Rightarrow> outcome \<times> world" where
  "finish_rpmnew self conf_file other_file option w =
     and_then (if option \<in> set [''N'', ''O''] then remove self other_file w else (Done, w))
       (\<lambda>w. if option \<in> set [''Y'', ''I''] then overwrite self other_file conf_file w
            else (Done, w))"

definition with_input :: "key list \<Rightarrow> outcome \<times> world \<Rightarrow> outcome \<times> world \<times> key list" where
  "with_input inp r = (fst r, snd r, inp)"

text \<open>
  The loop reads one key a turn. At the end of the keyboard the read meets the end of
  input, \<^verbatim>\<open>option\<close> becomes \<^verbatim>\<open>"S"\<close> and the loop test fails, so the first equation has no
  further turn (lemma \<open>turn_rpmnew_eof\<close> below).
\<close>

fun loop_rpmnew ::
  "rpmconf \<Rightarrow> environment \<Rightarrow> string \<Rightarrow> string \<Rightarrow> key list \<Rightarrow> world
     \<Rightarrow> outcome \<times> world \<times> key list" where
  "loop_rpmnew self env conf_file other_file [] w =
     (case turn_rpmnew self env conf_file other_file End_of_input w of
        Stop r w' \<Rightarrow> (r, w', [])
      | Next option w' \<Rightarrow> with_input [] (finish_rpmnew self conf_file other_file option w'))"
| "loop_rpmnew self env conf_file other_file (k # rest) w =
     (case turn_rpmnew self env conf_file other_file k w of
        Stop r w' \<Rightarrow> (r, w', rest)
      | Next option w' \<Rightarrow>
          if option \<in> set [''Y'', ''I'', ''N'', ''O'', ''S'']
          then with_input rest (finish_rpmnew self conf_file other_file option w')
          else loop_rpmnew self env conf_file other_file rest w')"

definition handle_rpmnew ::
  "rpmconf \<Rightarrow> environment \<Rightarrow> string \<Rightarrow> string \<Rightarrow> key list \<Rightarrow> world
     \<Rightarrow> outcome \<times> world \<times> key list" where
  "handle_rpmnew self env conf_file other_file inp w =
     (case already_merged (disk w) conf_file other_file of
        Inl e \<Rightarrow> (Raised e, w, inp)
      | Inr True \<Rightarrow> with_input inp (remove self other_file w)
      | Inr False \<Rightarrow>
          if unattended self = Some ''use_maintainer''
          then with_input inp (overwrite self other_file conf_file w)
          else if unattended self \<in> set [Some ''use_your'', Some ''default'']
          then with_input inp (remove self other_file w)
          else loop_rpmnew self env conf_file other_file inp w)"

text \<open>The same for \<^verbatim>\<open>_handle_rpmsave\<close>, which serves \<^verbatim>\<open>.rpmsave\<close> and \<^verbatim>\<open>.rpmorig\<close>.\<close>

definition chosen_rpmsave ::
  "rpmconf \<Rightarrow> environment \<Rightarrow> string \<Rightarrow> string \<Rightarrow> string \<Rightarrow> world \<Rightarrow> turn" where
  "chosen_rpmsave self env conf_file other_file option0 w =
     (if \<not> os_access (disk w) other_file
      then Stop Done (emit (Print (removed_msg other_file)) w)
      else
        let option = (if option0 = [] then ''Y'' else option0) in
        case (if option = ''D'' then show_diff env other_file conf_file w else (Done, w)) of
          (Done, w1) \<Rightarrow>
            (let w2 = (if option = ''Z''
                       then emit Stopped (emit (Print ''Run command 'fg' to continue'') w1)
                       else w1)
             in if option = ''M'' then
                  (case merge_conf_files self env conf_file other_file w2 of
                     (Done, w3) \<Rightarrow>
                       if \<not> os_access (disk w3) other_file
                       then Stop Done (emit (Print (merged_msg other_file)) w3)
                       else Next option w3
                   | (r, w3) \<Rightarrow> Stop r w3)
                else Next option w2)
        | (r, w1) \<Rightarrow> Stop r w1)"

definition turn_rpmsave ::
  "rpmconf \<Rightarrow> environment \<Rightarrow> string \<Rightarrow> string \<Rightarrow> key \<Rightarrow> world \<Rightarrow> turn" where
  "turn_rpmsave self env conf_file other_file k w =
     (if \<not> os_access (disk w) other_file
      then Stop Done (emit (Print (removed_msg other_file)) w)
      else
        case k of
          Line s \<Rightarrow>
            chosen_rpmsave self env conf_file other_file (upper env s)
              (ask_rpmsave self conf_file other_file w)
        | End_of_input \<Rightarrow>
            chosen_rpmsave self env conf_file other_file ''S''
              (ask_rpmsave self conf_file other_file w)
        | Interrupt \<Rightarrow> Stop (SysExit 1) (ask_rpmsave self conf_file other_file w))"

definition finish_rpmsave ::
  "rpmconf \<Rightarrow> string \<Rightarrow> string \<Rightarrow> string \<Rightarrow> world \<Rightarrow> outcome \<times> world" where
  "finish_rpmsave self conf_file other_file option w =
     and_then (if option \<in> set [''Y'', ''I''] then remove self other_file w else (Done, w))
       (\<lambda>w. if option \<in> set [''N'', ''O''] then overwrite self other_file conf_file w
            else (Done, w))"

fun loop_rpmsave ::
  "rpmconf \<Rightarrow> environment \<Rightarrow> string \<Rightarrow> string \<Rightarrow> key list \<Rightarrow> world
     \<Rightarrow> outcome \<times> world \<times> key list" where
  "loop_rpmsave self env conf_file other_file [] w =
     (case turn_rpmsave self env conf_file other_file End_of_input w of
        Stop r w' \<Rightarrow> (r, w', [])
      | Next option w' \<Rightarrow> with_input [] (finish_rpmsave self conf_file other_file option w'))"
| "loop_rpmsave self env conf_file other_file (k # rest) w =
     (case turn_rpmsave self env conf_file other_file k w of
        Stop r w' \<Rightarrow> (r, w', rest)
      | Next option w' \<Rightarrow>
          if option \<in> set [''Y'', ''I'', ''N'', ''O'', ''S'']
          then with_input rest (finish_rpmsave self conf_file other_file option w')
          else loop_rpmsave self env conf_file other_file rest w')"

definition handle_rpmsave ::
  "rpmconf \<Rightarrow> environment \<Rightarrow> string \<Rightarrow> string \<Rightarrow> key list \<Rightarrow> world
     \<Rightarrow> outcome \<times> world \<times> key list" where
  "handle_rpmsave self env conf_file other_file inp w =
     (case already_merged (disk w) conf_file other_file of
        Inl e \<Rightarrow> (Raised e, w, inp)
      | Inr True \<Rightarrow> with_input inp (remove self other_file w)
      | Inr False \<Rightarrow>
          if unattended self \<in> set [Some ''use_maintainer'', Some ''default'']
          then with_input inp (remove self other_file w)
          else if unattended self = Some ''use_your''
          then with_input inp (overwrite self other_file conf_file w)
          else loop_rpmsave self env conf_file other_file inp w)"

text \<open>
  \<^verbatim>\<open>_handle_package\<close> hands a \<^verbatim>\<open>.rpmnew\<close> sibling to \<^verbatim>\<open>_handle_rpmnew\<close> and a \<^verbatim>\<open>.rpmsave\<close>
  or \<^verbatim>\<open>.rpmorig\<close> sibling to \<^verbatim>\<open>_handle_rpmsave\<close>.
\<close>

datatype kind = NEW | BACKUP | ORIG

definition suffix_of :: "kind \<Rightarrow> string" where
  "suffix_of k = (case k of NEW \<Rightarrow> ''rpmnew'' | BACKUP \<Rightarrow> ''rpmsave'' | ORIG \<Rightarrow> ''rpmorig'')"

definition resolve ::
  "rpmconf \<Rightarrow> environment \<Rightarrow> kind \<Rightarrow> string \<Rightarrow> string \<Rightarrow> key list \<Rightarrow> world
     \<Rightarrow> outcome \<times> world \<times> key list" where
  "resolve self env k conf_file other_file inp w =
     (case k of
        NEW \<Rightarrow> handle_rpmnew self env conf_file other_file inp w
      | BACKUP \<Rightarrow> handle_rpmsave self env conf_file other_file inp w
      | ORIG \<Rightarrow> handle_rpmsave self env conf_file other_file inp w)"
subsection \<open>Facts about the file operations\<close>

lemma os_access_lexists: "os_access fs p \<Longrightarrow> fs p \<noteq> None"
  by (cases "fs p") (simp_all add: os_access_def path_exists_def os_stat_absent)

lemma os_access_stat: "os_access fs p \<Longrightarrow> \<exists>c m. os_stat fs p = Inr (c, m)"
  by (simp add: os_access_def path_exists_stat)

lemma remove_existing:
  "\<not> debug self \<Longrightarrow> fs p \<noteq> None \<Longrightarrow>
   remove self p \<lparr>disk = fs, out = t\<rparr> = (Done, \<lparr>disk = fs(p := None), out = t\<rparr>)"
  by (auto simp: remove_def os_unlink_def)

lemma remove_accessible:
  "\<not> debug self \<Longrightarrow> os_access (disk w) p \<Longrightarrow>
   remove self p w = (Done, w\<lparr>disk := (disk w)(p := None)\<rparr>)"
  by (auto simp: remove_def os_unlink_def dest: os_access_lexists)

lemma already_merged_total:
  assumes "os_access fs other_file"
  shows "\<exists>b. already_merged fs conf_file other_file = Inr b"
proof -
  obtain c2 m2 where o: "os_stat fs other_file = Inr (c2, m2)"
    using assms os_access_stat by blast
  show ?thesis
  proof (cases "path_exists fs conf_file")
    case True
    then obtain c1 m1 where "os_stat fs conf_file = Inr (c1, m1)"
      using path_exists_stat by blast
    with o show ?thesis by (auto simp: already_merged_def filecmp_cmp_def)
  next
    case False
    then show ?thesis by (auto simp: already_merged_def)
  qed
qed

lemma disk_emit [simp]: "disk (emit e w) = disk w"
  by (simp add: emit_def)

lemma disk_ls_conf_file [simp]: "disk (ls_conf_file self conf_file other_file w) = disk w"
  by (simp add: ls_conf_file_def Let_def)

lemma disk_ask_rpmnew [simp]: "disk (ask_rpmnew self conf_file other_file w) = disk w"
  by (simp add: ask_rpmnew_def)

lemma disk_ask_rpmsave [simp]: "disk (ask_rpmsave self conf_file other_file w) = disk w"
  by (simp add: ask_rpmsave_def)

text \<open>At the end of input a turn never comes back to the loop with an open choice.\<close>

lemma turn_rpmnew_eof:
  "turn_rpmnew self env conf_file other_file End_of_input w = Next option w' \<Longrightarrow> option = ''S''"
  by (auto simp: turn_rpmnew_def chosen_rpmnew_def split: if_splits)

lemma turn_rpmsave_eof:
  "turn_rpmsave self env conf_file other_file End_of_input w = Next option w' \<Longrightarrow> option = ''S''"
  by (auto simp: turn_rpmsave_def chosen_rpmsave_def split: if_splits)

text \<open>The question and the key of a turn are one call of \<^verbatim>\<open>flush_input\<close>.\<close>

lemma flush_input_Cons:
  "flush_input q (k # rest) w =
     (case k of
        Line s \<Rightarrow> (Inr s, emit (Ask q) w, rest)
      | End_of_input \<Rightarrow> (Inl EOFError, emit (Ask q) w, rest)
      | Interrupt \<Rightarrow> (Inl KeyboardInterrupt, emit (Ask q) w, rest))"
  by (simp add: flush_input_def next_key_def split: key.splits)
section \<open>The interactive path\<close>

definition asked :: "rpmconf \<Rightarrow> kind \<Rightarrow> string \<Rightarrow> string \<Rightarrow> world \<Rightarrow> world" where
  "asked self k conf_file other_file w =
     (case k of
        NEW \<Rightarrow> ask_rpmnew self conf_file other_file w
      | BACKUP \<Rightarrow> ask_rpmsave self conf_file other_file w
      | ORIG \<Rightarrow> ask_rpmsave self conf_file other_file w)"

definition policies :: "string option list" where
  "policies = [Some ''use_maintainer'', Some ''use_your'', Some ''default'']"

text \<open>
  C4. Outside a dry run and with no unattended policy, an empty line typed at the first
  prompt of an existing artifact resolves as the default of its kind: \<^verbatim>\<open>N\<close> for
  \<^verbatim>\<open>.rpmnew\<close> (keep the installed file), \<^verbatim>\<open>Y\<close> for \<^verbatim>\<open>.rpmsave\<close> and \<^verbatim>\<open>.rpmorig\<close> (keep
  the maintainer's file, which is the installed one). Either way the method returns and
  the disk afterwards is the disk before without the artifact: the base file is as it
  was. The pair may also have been found identical, in which case nothing is read.
\<close>

theorem default_on_empty_input:
  assumes "\<not> debug self"
    and "unattended self \<notin> set policies"
    and "os_access (disk w) other_file"
  shows "\<exists>t inp'. resolve self env k conf_file other_file (Line [] # rest) w
           = (Done, \<lparr>disk = (disk w)(other_file := None), out = t\<rparr>, inp')"
proof -
  obtain fs t0 where w: "w = \<lparr>disk = fs, out = t0\<rparr>"
    by (cases w) simp
  have ex: "fs other_file \<noteq> None"
    using assms(3) w by (auto dest: os_access_lexists)
  obtain b where b: "already_merged fs conf_file other_file = Inr b"
    using already_merged_total assms(3) w by fastforce
  have acc: "os_access fs other_file"
    using assms(3) w by simp
  have rm: "\<And>t. remove self other_file \<lparr>disk = fs, out = t\<rparr>
              = (Done, \<lparr>disk = fs(other_file := None), out = t\<rparr>)"
    using assms(1) ex by (simp add: remove_existing)
  show ?thesis
  proof (cases b)
    case True
    with b w rm show ?thesis
      by (cases k) (simp_all add: resolve_def handle_rpmnew_def handle_rpmsave_def with_input_def)
  next
    case False
    have new: "\<exists>t. loop_rpmnew self env conf_file other_file (Line [] # rest) \<lparr>disk = fs, out = t0\<rparr>
                 = (Done, \<lparr>disk = fs(other_file := None), out = t\<rparr>, rest)"
      using acc rm
      by (simp add: turn_rpmnew_def chosen_rpmnew_def upper_def is_ascii_def finish_rpmnew_def
          and_then_def with_input_def ask_rpmnew_def ls_conf_file_def emit_def Let_def)
    have save: "\<exists>t. loop_rpmsave self env conf_file other_file (Line [] # rest) \<lparr>disk = fs, out = t0\<rparr>
                 = (Done, \<lparr>disk = fs(other_file := None), out = t\<rparr>, rest)"
      using acc rm
      by (simp add: turn_rpmsave_def chosen_rpmsave_def upper_def is_ascii_def finish_rpmsave_def
          and_then_def with_input_def ask_rpmsave_def ls_conf_file_def emit_def Let_def)
    from False b w assms(2) new save show ?thesis
      by (cases k) (auto simp: resolve_def handle_rpmnew_def handle_rpmsave_def policies_def)
  qed
qed
text \<open>
  C8. When the interactive loop is reached (no unattended policy, the pair not found
  identical, the artifact there), the end of input at the first read makes \<^verbatim>\<open>option\<close>
  \<^verbatim>\<open>"S"\<close>: the method returns with the disk as it was, having only listed the files and
  asked. An interrupt at that read ends the process with status 1, the disk as it was.
\<close>

theorem read_failure_modes:
  assumes "unattended self \<notin> set policies"
    and "already_merged (disk w) conf_file other_file = Inr False"
    and "os_access (disk w) other_file"
  shows "resolve self env k conf_file other_file (End_of_input # rest) w
           = (Done, asked self k conf_file other_file w, rest)
       \<and> resolve self env k conf_file other_file [] w
           = (Done, asked self k conf_file other_file w, [])
       \<and> resolve self env k conf_file other_file (Interrupt # rest) w
           = (SysExit 1, asked self k conf_file other_file w, rest)
       \<and> disk (asked self k conf_file other_file w) = disk w"
  using assms
  by (cases k)
     (simp_all add: resolve_def handle_rpmnew_def handle_rpmsave_def policies_def asked_def
        turn_rpmnew_def chosen_rpmnew_def finish_rpmnew_def
        turn_rpmsave_def chosen_rpmsave_def finish_rpmsave_def and_then_def with_input_def)

text \<open>
  C3, as the code has it. A line whose upper case (\<^verbatim>\<open>str.upper()\<close>) is neither empty
  nor one of \<^verbatim>\<open>Y I N O S D Z M\<close> resolves nothing: the files are left alone, and the
  loop lists the files and asks again, going on with the rest of the input exactly as if
  the line had not been typed.
\<close>

theorem unrecognized_input_asks_again:
  assumes "unattended self \<notin> set policies"
    and "already_merged (disk w) conf_file other_file = Inr False"
    and "os_access (disk w) other_file"
    and "upper env s \<notin> set [[], ''Y'', ''I'', ''N'', ''O'', ''S'', ''D'', ''Z'', ''M'']"
  shows "resolve self env k conf_file other_file (Line s # rest) w
           = resolve self env k conf_file other_file rest (asked self k conf_file other_file w)
       \<and> disk (asked self k conf_file other_file w) = disk w"
  using assms
  by (cases k)
     (simp_all add: resolve_def handle_rpmnew_def handle_rpmsave_def policies_def asked_def
        turn_rpmnew_def chosen_rpmnew_def turn_rpmsave_def chosen_rpmsave_def)

section \<open>The unattended path\<close>


fun is_ask :: "event \<Rightarrow> bool" where
  "is_ask (Ask _) = True"
| "is_ask _ = False"




section \<open>Worked examples\<close>

text \<open>
  \<open>plain\<close> is \<^verbatim>\<open>RpmConf()\<close> with its defaults. \<open>quiet_env\<close> has no \<^verbatim>\<open>MERGE\<close> variable and no
  merge tool installed. \<open>x_disk\<close> is the scenario of the specification: \<^verbatim>\<open>/etc/x.conf\<close>
  holds \<^verbatim>\<open>A\<close> and \<^verbatim>\<open>/etc/x.conf.rpmnew\<close> holds \<^verbatim>\<open>B\<close>. On \<open>same_disk\<close> the two hold the
  same bytes. On \<open>linked_disk\<close> they hold the same bytes too, and \<^verbatim>\<open>/etc/x.conf\<close> is a
  symbolic link to the file that holds them.
\<close>

definition plain :: rpmconf where
  "plain = \<lparr>debug = False, selinux = False, frontend = None, unattended = None,
            exclude = [], root = None\<rparr>"

definition quiet_env :: environment where
  "quiet_env = \<lparr>decodes = (\<lambda>_. True), environ_MERGE = None, run = (\<lambda>_ _. Not_found),
                mkstemp = (\<lambda>_. ''/tmp/rpmconf_0''), clock = 0,
                diff_u = (\<lambda>_ _ _. Inl FileNotFoundError), unicode_upper = (\<lambda>s. s)\<rparr>"

definition x_disk :: filesystem where
  "x_disk = [''/etc/x.conf'' \<mapsto> File ''A'' 1, ''/etc/x.conf.rpmnew'' \<mapsto> File ''B'' 2]"


definition linked_disk :: filesystem where
  "linked_disk = [''/etc/x.conf'' \<mapsto> Symlink ''/srv/x.conf'',
                  ''/srv/x.conf'' \<mapsto> File ''A'' 1,
                  ''/etc/x.conf.rpmnew'' \<mapsto> File ''A'' 1]"

lemmas disk_eval =
  os_access_def path_exists_def path_islink_def path_lexists_def os_stat_def realpath_def
  follow_numeral is_broken_symlink_def already_merged_def filecmp_cmp_def
  os_unlink_def os_symlink_def os_readlink_def samefile_def shutil_copy2_def

lemmas run_eval =
  resolve_def handle_rpmnew_def handle_rpmsave_def policies_def asked_def
  turn_rpmnew_def chosen_rpmnew_def finish_rpmnew_def ask_rpmnew_def
  turn_rpmsave_def chosen_rpmsave_def finish_rpmsave_def ask_rpmsave_def
  ls_conf_file_def emit_def and_then_def with_input_def remove_def overwrite_def copy_def
  upper_def is_ascii_def upper_char_def

theorem default_on_empty_input_witness:
  "\<not> debug plain \<and> unattended plain \<notin> set policies
   \<and> os_access x_disk ''/etc/x.conf.rpmnew''
   \<and> fst (resolve plain quiet_env NEW ''/etc/x.conf'' ''/etc/x.conf.rpmnew'' [Line []]
            \<lparr>disk = x_disk, out = []\<rparr>) = Done
   \<and> disk (fst (snd (resolve plain quiet_env NEW ''/etc/x.conf'' ''/etc/x.conf.rpmnew''
                        [Line []] \<lparr>disk = x_disk, out = []\<rparr>)))
       = x_disk(''/etc/x.conf.rpmnew'' := None)"
proof -
  have h1: "\<not> debug plain" by (simp add: plain_def)
  have h2: "unattended plain \<notin> set policies" by (simp add: plain_def policies_def)
  have h3: "os_access (disk \<lparr>disk = x_disk, out = []\<rparr>) ''/etc/x.conf.rpmnew''"
    by (simp add: x_disk_def disk_eval)
  from default_on_empty_input [OF h1 h2 h3, of quiet_env NEW "''/etc/x.conf''" "[]"]
  obtain t inp' where
    "resolve plain quiet_env NEW ''/etc/x.conf'' ''/etc/x.conf.rpmnew'' [Line []]
       \<lparr>disk = x_disk, out = []\<rparr>
     = (Done, \<lparr>disk = x_disk(''/etc/x.conf.rpmnew'' := None), out = t\<rparr>, inp')"
    by auto
  with h1 h2 h3 show ?thesis by simp
qed

theorem read_failure_modes_witness:
  "unattended plain \<notin> set policies
   \<and> already_merged x_disk ''/etc/x.conf'' ''/etc/x.conf.rpmnew'' = Inr False
   \<and> os_access x_disk ''/etc/x.conf.rpmnew''
   \<and> resolve plain quiet_env BACKUP ''/etc/x.conf'' ''/etc/x.conf.rpmnew'' [End_of_input]
        \<lparr>disk = x_disk, out = []\<rparr>
      = (Done,
         \<lparr>disk = x_disk,
          out = [Print (''Configuration file '' @ [CHR 0x27] @ ''/etc/x.conf'' @ [CHR 0x27]),
                 Listing False ''/etc/x.conf'' ''/etc/x.conf.rpmnew'',
                 Print prompt_rpmsave, Ask ''Your choice: '']\<rparr>, [])
   \<and> fst (resolve plain quiet_env BACKUP ''/etc/x.conf'' ''/etc/x.conf.rpmnew'' [Interrupt]
             \<lparr>disk = x_disk, out = []\<rparr>) = SysExit 1"
proof -
  have h1: "unattended plain \<notin> set policies" by (simp add: plain_def policies_def)
  have h2: "already_merged (disk \<lparr>disk = x_disk, out = []\<rparr>) ''/etc/x.conf''
              ''/etc/x.conf.rpmnew'' = Inr False"
    by (simp add: x_disk_def disk_eval)
  have h3: "os_access (disk \<lparr>disk = x_disk, out = []\<rparr>) ''/etc/x.conf.rpmnew''"
    by (simp add: x_disk_def disk_eval)
  have a: "asked plain BACKUP ''/etc/x.conf'' ''/etc/x.conf.rpmnew'' \<lparr>disk = x_disk, out = []\<rparr>
        = \<lparr>disk = x_disk,
           out = [Print (''Configuration file '' @ [CHR 0x27] @ ''/etc/x.conf'' @ [CHR 0x27]),
                  Listing False ''/etc/x.conf'' ''/etc/x.conf.rpmnew'',
                  Print prompt_rpmsave, Ask ''Your choice: '']\<rparr>"
    by (simp add: asked_def ask_rpmsave_def ls_conf_file_def emit_def plain_def x_disk_def
        disk_eval)
  from read_failure_modes [OF h1 h2 h3, of quiet_env BACKUP "[]"] a h1 h2 h3
  show ?thesis by simp
qed
theorem unrecognized_input_asks_again_witness:
  "unattended plain \<notin> set policies
   \<and> already_merged x_disk ''/etc/x.conf'' ''/etc/x.conf.rpmnew'' = Inr False
   \<and> os_access x_disk ''/etc/x.conf.rpmnew''
   \<and> upper quiet_env ''x'' \<notin> set [[], ''Y'', ''I'', ''N'', ''O'', ''S'', ''D'', ''Z'', ''M'']
   \<and> resolve plain quiet_env NEW ''/etc/x.conf'' ''/etc/x.conf.rpmnew'' [Line ''x'', Line ''y'']
        \<lparr>disk = x_disk, out = []\<rparr>
      = resolve plain quiet_env NEW ''/etc/x.conf'' ''/etc/x.conf.rpmnew'' [Line ''y'']
          (asked plain NEW ''/etc/x.conf'' ''/etc/x.conf.rpmnew'' \<lparr>disk = x_disk, out = []\<rparr>)
   \<and> disk (fst (snd (resolve plain quiet_env NEW ''/etc/x.conf'' ''/etc/x.conf.rpmnew''
                        [Line ''x'', Line ''y''] \<lparr>disk = x_disk, out = []\<rparr>)))
       = [''/etc/x.conf'' \<mapsto> File ''B'' 2]"
proof -
  have h1: "unattended plain \<notin> set policies" by (simp add: plain_def policies_def)
  have h2: "already_merged (disk \<lparr>disk = x_disk, out = []\<rparr>) ''/etc/x.conf''
              ''/etc/x.conf.rpmnew'' = Inr False"
    by (simp add: x_disk_def disk_eval)
  have h3: "os_access (disk \<lparr>disk = x_disk, out = []\<rparr>) ''/etc/x.conf.rpmnew''"
    by (simp add: x_disk_def disk_eval)
  have h4: "upper quiet_env ''x'' \<notin> set [[], ''Y'', ''I'', ''N'', ''O'', ''S'', ''D'', ''Z'', ''M'']"
    by (simp add: upper_def is_ascii_def upper_char_def)
  have y: "disk (fst (snd (resolve plain quiet_env NEW ''/etc/x.conf'' ''/etc/x.conf.rpmnew''
             [Line ''y'']
             (asked plain NEW ''/etc/x.conf'' ''/etc/x.conf.rpmnew'' \<lparr>disk = x_disk, out = []\<rparr>))))
           = [''/etc/x.conf'' \<mapsto> File ''B'' 2]"
    by (simp add: run_eval plain_def x_disk_def disk_eval fun_upd_twist)
  from unrecognized_input_asks_again [OF h1 h2 h3 h4, of NEW "[Line ''y'']"]
    y h1 h2 h3 h4
  show ?thesis by simp
qed

text \<open>
  C3 as stated fails. In the scenario of the specification the single line \<^verbatim>\<open>x\<close> does
  not remove the artifact, as the default (an empty line) does: the loop asks again, meets
  the end of input and skips the file.
\<close>

theorem unrecognized_input_counterexample:
  "disk (fst (snd (resolve plain quiet_env NEW ''/etc/x.conf'' ''/etc/x.conf.rpmnew''
                     [Line ''x''] \<lparr>disk = x_disk, out = []\<rparr>))) ''/etc/x.conf.rpmnew''
     = Some (File ''B'' 2)
   \<and> disk (fst (snd (resolve plain quiet_env NEW ''/etc/x.conf'' ''/etc/x.conf.rpmnew''
                     [Line []] \<lparr>disk = x_disk, out = []\<rparr>))) ''/etc/x.conf.rpmnew''
     = None
   \<and> length (filter is_ask (out (fst (snd (resolve plain quiet_env NEW ''/etc/x.conf''
                     ''/etc/x.conf.rpmnew'' [Line ''x''] \<lparr>disk = x_disk, out = []\<rparr>))))) = 2"
  by (simp add: run_eval plain_def x_disk_def disk_eval)



section \<open>The fast path\<close>

text \<open>
  Two regular files with the same bytes: whatever the kind, the policy and the keyboard,
  the artifact is removed, the base is left alone, nothing is printed or read.
\<close>

lemma fast_path_regular_files:
  assumes "\<not> debug self"
    and "fs conf_file = Some (File c m1)"
    and "fs other_file = Some (File c m2)"
  shows "resolve self env k conf_file other_file inp \<lparr>disk = fs, out = t\<rparr>
           = (Done, \<lparr>disk = fs(other_file := None), out = t\<rparr>, inp)"
proof -
  have "already_merged fs conf_file other_file = Inr True"
    using assms(2,3)
    by (simp add: already_merged_def is_broken_symlink_def path_islink_def path_exists_def
        filecmp_cmp_def os_stat_file)
  moreover have "remove self other_file \<lparr>disk = fs, out = t\<rparr>
                   = (Done, \<lparr>disk = fs(other_file := None), out = t\<rparr>)"
    using assms(1,3) by (simp add: remove_existing)
  ultimately show ?thesis
    by (cases k) (simp_all add: resolve_def handle_rpmnew_def handle_rpmsave_def with_input_def)
qed

text \<open>
  C1 at its failing input. \<^verbatim>\<open>/etc/x.conf\<close> is a symbolic link that resolves, to a file
  with the very bytes (and modification time) of \<^verbatim>\<open>/etc/x.conf.rpmnew\<close>: neither side is a
  broken link, both exist, they compare equal. \<^verbatim>\<open>is_broken_symlink\<close>, documented as
  "Returns true if file is broken symlink", returns \<^verbatim>\<open>islink and exists\<close>, which is true of
  the link that resolves. So the fast path is not taken: the files are listed, the prompt
  is printed, a choice is asked for, and (at the end of input) the artifact stays.
\<close>

theorem fast_path_misses_linked_base:
  "\<not> spec_broken_link linked_disk ''/etc/x.conf''
   \<and> \<not> spec_broken_link linked_disk ''/etc/x.conf.rpmnew''
   \<and> path_exists linked_disk ''/etc/x.conf''
   \<and> path_exists linked_disk ''/etc/x.conf.rpmnew''
   \<and> filecmp_cmp linked_disk ''/etc/x.conf'' ''/etc/x.conf.rpmnew'' = Inr True
   \<and> is_broken_symlink linked_disk ''/etc/x.conf''
   \<and> resolve plain quiet_env NEW ''/etc/x.conf'' ''/etc/x.conf.rpmnew'' []
        \<lparr>disk = linked_disk, out = []\<rparr>
      = (Done,
         \<lparr>disk = linked_disk,
          out = [Print (''Configuration file '' @ [CHR 0x27] @ ''/etc/x.conf'' @ [CHR 0x27]),
                 Listing False ''/etc/x.conf'' ''/etc/x.conf.rpmnew'',
                 Print prompt_rpmnew, Ask ''Your choice: '']\<rparr>, [])"
  by (simp add: run_eval plain_def linked_disk_def disk_eval spec_broken_link_def)
section \<open>Merging: the two fatal errors\<close>

text \<open>
  The executable \<^verbatim>\<open>_merge_conf_files\<close> resolves to: \<^verbatim>\<open>/usr/bin/\<close> and the name of one of
  the six known frontends, or the value of \<^verbatim>\<open>MERGE\<close> when the frontend is \<^verbatim>\<open>env\<close> or not
  set; none in the other cases.
\<close>

definition merge_executable :: "rpmconf \<Rightarrow> environment \<Rightarrow> string option" where
  "merge_executable self env =
     (case frontend self of
        None \<Rightarrow> environ_MERGE env
      | Some f \<Rightarrow>
          if f \<in> set [''vimdiff'', ''gvimdiff'', ''meld'', ''diffuse'', ''kdiff3'', ''sdiff'']
          then Some (''/usr/bin/'' @ f)
          else if f = ''env'' then environ_MERGE env
          else None)"

lemma not_found_vimdiff:
  "frontend self = Some ''vimdiff'' \<Longrightarrow>
   \<forall>args d. run env (''/usr/bin/vimdiff'' # args) d = Not_found \<Longrightarrow>
   fst (merge_try self env conf_file other_file w) = Raised FileNotFoundError"
  by (simp add: merge_try_def check_call_def)

lemma not_found_gvimdiff:
  "frontend self = Some ''gvimdiff'' \<Longrightarrow>
   \<forall>args d. run env (''/usr/bin/gvimdiff'' # args) d = Not_found \<Longrightarrow>
   fst (merge_try self env conf_file other_file w) = Raised FileNotFoundError"
  by (simp add: merge_try_def check_call_def)

lemma not_found_meld:
  "frontend self = Some ''meld'' \<Longrightarrow>
   \<forall>args d. run env (''/usr/bin/meld'' # args) d = Not_found \<Longrightarrow>
   fst (merge_try self env conf_file other_file w) = Raised FileNotFoundError"
  by (simp add: merge_try_def check_call_def)

lemma not_found_diffuse:
  "frontend self = Some ''diffuse'' \<Longrightarrow>
   \<forall>args d. run env (''/usr/bin/diffuse'' # args) d = Not_found \<Longrightarrow>
   fst (merge_try self env conf_file other_file w) = Raised FileNotFoundError"
  by (simp add: merge_try_def check_call_def not_merged_def)

lemma not_found_kdiff3:
  "frontend self = Some ''kdiff3'' \<Longrightarrow>
   \<forall>args d. run env (''/usr/bin/kdiff3'' # args) d = Not_found \<Longrightarrow>
   fst (merge_try self env conf_file other_file w) = Raised FileNotFoundError"
  by (simp add: merge_try_def check_call_def not_merged_def and_then_def)

lemma not_found_sdiff:
  "frontend self = Some ''sdiff'' \<Longrightarrow>
   \<forall>args d. run env (''/usr/bin/sdiff'' # args) d = Not_found \<Longrightarrow>
   fst (merge_try self env conf_file other_file w) = Raised FileNotFoundError"
  by (simp add: merge_try_def check_call_def Let_def)

lemma not_found_env:
  "frontend self = Some ''env'' \<or> frontend self = None \<Longrightarrow>
   environ_MERGE env = Some exe \<Longrightarrow>
   \<forall>args d. run env (exe # args) d = Not_found \<Longrightarrow>
   fst (merge_try self env conf_file other_file w) = Raised FileNotFoundError"
  by (erule disjE) (simp_all add: merge_try_def check_call_def)

lemma merge_try_not_found:
  assumes "merge_executable self env = Some exe"
    and "\<forall>args d. run env (exe # args) d = Not_found"
  shows "fst (merge_try self env conf_file other_file w) = Raised FileNotFoundError"
proof (cases "frontend self")
  case None
  with assms(1) have "environ_MERGE env = Some exe"
    by (simp add: merge_executable_def)
  with None assms(2) show ?thesis
    by (simp add: not_found_env)
next
  case (Some f)
  show ?thesis
  proof (cases "f = ''vimdiff''")
    case True
    with Some assms show ?thesis
      by (simp add: merge_executable_def not_found_vimdiff)
  next
    case f1: False
    show ?thesis
    proof (cases "f = ''gvimdiff''")
      case True
      with Some assms show ?thesis
        by (simp add: merge_executable_def not_found_gvimdiff)
    next
      case f2: False
      show ?thesis
      proof (cases "f = ''meld''")
        case True
        with Some assms show ?thesis
          by (simp add: merge_executable_def not_found_meld)
      next
        case f3: False
        show ?thesis
        proof (cases "f = ''diffuse''")
          case True
          with Some assms show ?thesis
            by (simp add: merge_executable_def not_found_diffuse)
        next
          case f4: False
          show ?thesis
          proof (cases "f = ''kdiff3''")
            case True
            with Some assms show ?thesis
              by (simp add: merge_executable_def not_found_kdiff3)
          next
            case f5: False
            show ?thesis
            proof (cases "f = ''sdiff''")
              case True
              with Some assms show ?thesis
                by (simp add: merge_executable_def not_found_sdiff)
            next
              case f6: False
              from Some f1 f2 f3 f4 f5 f6 assms(1)
              have "f = ''env'' \<and> environ_MERGE env = Some exe"
                by (simp add: merge_executable_def split: if_splits)
              with Some assms(2) show ?thesis
                by (simp add: not_found_env)
            qed
          qed
        qed
      qed
    qed
  qed
qed

text \<open>
  C9. With no frontend and no \<^verbatim>\<open>MERGE\<close> variable, \<^verbatim>\<open>_merge_conf_files\<close> logs the error
  that tells how to choose a frontend and exits with status 2, the disk untouched. When
  the executable it resolves to is not found, it writes the error to standard error and
  exits with status 4.
\<close>

theorem merge_fatal_errors:
  "(frontend self = None \<and> environ_MERGE env = None \<longrightarrow>
      merge_conf_files self env conf_file other_file w
        = (SysExit 2,
           w\<lparr>out := out w @
              [Log_error (''You did not select any frontend for merge.\<newline>''
                 @ ''      Define it with environment variable 'MERGE' or flag -f.'')]\<rparr>))
   \<and> (merge_executable self env = Some exe \<and> (\<forall>args d. run env (exe # args) d = Not_found) \<longrightarrow>
        fst (merge_conf_files self env conf_file other_file w) = SysExit 4
        \<and> last (out (snd (merge_conf_files self env conf_file other_file w)))
            = Stderr ''No such file or directory\<newline>'')"
proof (intro conjI impI)
  assume "frontend self = None \<and> environ_MERGE env = None"
  then show "merge_conf_files self env conf_file other_file w
        = (SysExit 2,
           w\<lparr>out := out w @
              [Log_error (''You did not select any frontend for merge.\<newline>''
                 @ ''      Define it with environment variable 'MERGE' or flag -f.'')]\<rparr>)"
    by (simp add: merge_conf_files_def merge_try_def emit_def no_frontend_msg_def)
next
  assume a: "merge_executable self env = Some exe
             \<and> (\<forall>args d. run env (exe # args) d = Not_found)"
  then have r: "fst (merge_try self env conf_file other_file w) = Raised FileNotFoundError"
    using merge_try_not_found by blast
  then obtain w' where "merge_try self env conf_file other_file w = (Raised FileNotFoundError, w')"
    by (cases "merge_try self env conf_file other_file w") simp
  then have m: "merge_conf_files self env conf_file other_file w
              = (SysExit 4, emit (Stderr ''No such file or directory\<newline>'') w')"
    by (simp add: merge_conf_files_def)
  show "fst (merge_conf_files self env conf_file other_file w) = SysExit 4"
    by (simp add: m)
  show "last (out (snd (merge_conf_files self env conf_file other_file w)))
          = Stderr ''No such file or directory\<newline>''"
    by (simp add: m emit_def)
qed

theorem merge_fatal_errors_witness:
  "frontend plain = None \<and> environ_MERGE quiet_env = None
   \<and> merge_conf_files plain quiet_env ''/etc/x.conf'' ''/etc/x.conf.rpmnew''
        \<lparr>disk = x_disk, out = []\<rparr>
      = (SysExit 2,
         \<lparr>disk = x_disk,
          out = [Log_error (''You did not select any frontend for merge.\<newline>''
                   @ ''      Define it with environment variable 'MERGE' or flag -f.'')]\<rparr>)
   \<and> merge_executable (plain\<lparr>frontend := Some ''sdiff''\<rparr>) quiet_env = Some ''/usr/bin/sdiff''
   \<and> run quiet_env [''/usr/bin/sdiff'', ''-o'', ''/tmp/rpmconf_0'', ''/etc/x.conf'',
                     ''/etc/x.conf.rpmnew''] x_disk = Not_found
   \<and> fst (merge_conf_files (plain\<lparr>frontend := Some ''sdiff''\<rparr>) quiet_env ''/etc/x.conf''
             ''/etc/x.conf.rpmnew'' \<lparr>disk = x_disk, out = []\<rparr>) = SysExit 4
   \<and> last (out (snd (merge_conf_files (plain\<lparr>frontend := Some ''sdiff''\<rparr>) quiet_env
             ''/etc/x.conf'' ''/etc/x.conf.rpmnew'' \<lparr>disk = x_disk, out = []\<rparr>)))
       = Stderr ''No such file or directory\<newline>''"
proof -
  have h1: "frontend plain = None \<and> environ_MERGE quiet_env = None"
    by (simp add: plain_def quiet_env_def)
  have h2: "merge_executable (plain\<lparr>frontend := Some ''sdiff''\<rparr>) quiet_env
              = Some ''/usr/bin/sdiff''
            \<and> (\<forall>args d. run quiet_env (''/usr/bin/sdiff'' # args) d = Not_found)"
    by (simp add: merge_executable_def quiet_env_def)
  from merge_fatal_errors [of plain quiet_env "''/etc/x.conf''" "''/etc/x.conf.rpmnew''"
         "\<lparr>disk = x_disk, out = []\<rparr>" "''/usr/bin/sdiff''"] h1
  have a: "merge_conf_files plain quiet_env ''/etc/x.conf'' ''/etc/x.conf.rpmnew''
             \<lparr>disk = x_disk, out = []\<rparr>
           = (SysExit 2,
              \<lparr>disk = x_disk,
               out = [Log_error (''You did not select any frontend for merge.\<newline>''
                        @ ''      Define it with environment variable 'MERGE' or flag -f.'')]\<rparr>)"
    by simp
  from merge_fatal_errors [of "plain\<lparr>frontend := Some ''sdiff''\<rparr>" quiet_env "''/etc/x.conf''"
         "''/etc/x.conf.rpmnew''" "\<lparr>disk = x_disk, out = []\<rparr>" "''/usr/bin/sdiff''"] h2
  have b: "fst (merge_conf_files (plain\<lparr>frontend := Some ''sdiff''\<rparr>) quiet_env ''/etc/x.conf''
             ''/etc/x.conf.rpmnew'' \<lparr>disk = x_disk, out = []\<rparr>) = SysExit 4
         \<and> last (out (snd (merge_conf_files (plain\<lparr>frontend := Some ''sdiff''\<rparr>) quiet_env
             ''/etc/x.conf'' ''/etc/x.conf.rpmnew'' \<lparr>disk = x_disk, out = []\<rparr>)))
             = Stderr ''No such file or directory\<newline>''"
    by blast
  have c: "run quiet_env [''/usr/bin/sdiff'', ''-o'', ''/tmp/rpmconf_0'', ''/etc/x.conf'',
                     ''/etc/x.conf.rpmnew''] x_disk = Not_found"
    by (simp add: quiet_env_def)
  from a b c h1 h2 show ?thesis by simp
qed

section \<open>The orphan scan: walking the directories\<close>

text \<open>
  \<^verbatim>\<open>_clean_orphan\<close> sees directories through \<^verbatim>\<open>os.walk(topdir, followlinks=True,
  topdown=True)\<close> and \<^verbatim>\<open>os.stat\<close>, and changes them through \<^verbatim>\<open>os.unlink\<close>. A
  directory is known by its identity, the pair \<^verbatim>\<open>(st_dev, st_ino)\<close>, whatever the path
  that leads to it; \<open>listing\<close> gives, for an identity, the entries \<^verbatim>\<open>os.scandir\<close>
  returns: a name, and either the identity of the directory the name resolves to (a
  directory or a symbolic link to one, which \<^verbatim>\<open>os.walk\<close> puts in \<^verbatim>\<open>dirs\<close>) or nothing
  more (anything else, which goes to \<^verbatim>\<open>files\<close>). A link back to a directory above it is
  an entry with that directory's identity: the graph may have cycles. \<open>top_dir\<close> gives
  the identity of the directory a path names, if it names one (\<^verbatim>\<open>os.walk\<close> of anything
  else yields nothing). \<open>dbMatch_basenames\<close> is \<^verbatim>\<open>trans.dbMatch("basenames", name)\<close>:
  the names of the installed packages that declare the file, in the order of the
  iterator. \<open>normpath\<close> is \<^verbatim>\<open>os.path.normpath\<close> and \<open>as_Path\<close> the normal form in which
  \<^verbatim>\<open>pathlib.Path\<close> compares two paths.
\<close>

type_synonym ident = "nat \<times> nat"

datatype entry = Directory ident | Other

type_synonym tree = "(ident \<times> (string \<times> entry) list) list"

record system =
  listing :: tree
  top_dir :: "string \<Rightarrow> ident option"
  dbMatch_basenames :: "string \<Rightarrow> string list"
  normpath :: "string \<Rightarrow> string"
  as_Path :: "string \<Rightarrow> string"

definition scandir :: "system \<Rightarrow> ident \<Rightarrow> (string \<times> entry) list" where
  "scandir sys i = (case map_of (listing sys) i of None \<Rightarrow> [] | Some es \<Rightarrow> es)"

fun dirs_of :: "(string \<times> entry) list \<Rightarrow> (string \<times> ident) list" where
  "dirs_of [] = []"
| "dirs_of ((name, Directory k) # es) = (name, k) # dirs_of es"
| "dirs_of ((name, Other) # es) = dirs_of es"

fun files_of :: "(string \<times> entry) list \<Rightarrow> string list" where
  "files_of [] = []"
| "files_of ((name, Directory k) # es) = files_of es"
| "files_of ((name, Other) # es) = name # files_of es"

text \<open>\<^verbatim>\<open>os.path.join\<close> of two components.\<close>

definition join :: "string \<Rightarrow> string \<Rightarrow> string" where
  "join a b =
     (if b \<noteq> [] \<and> hd b = CHR ''/'' then b
      else if a = [] \<or> last a = CHR ''/'' then a @ b
      else a @ ''/'' @ b)"

text \<open>
  Line 511. \<open>exclude self\<close> is the attribute as \<^verbatim>\<open>__init__\<close> left it: the real paths of
  the directories given with \<^verbatim>\<open>--exclude\<close>.
\<close>

definition excludes :: "rpmconf \<Rightarrow> system \<Rightarrow> string list" where
  "excludes self sys =
     map (as_Path sys)
       (exclude self @ [''/var/lib/mock'', ''/var/run/'', ''/var/lib/docker'',
                        ''/var/lib/containers''])"

text \<open>Line 520: the subdirectories that are not excluded.\<close>

definition kept_dirs ::
  "rpmconf \<Rightarrow> system \<Rightarrow> string \<Rightarrow> (string \<times> ident) list \<Rightarrow> (string \<times> ident) list" where
  "kept_dirs self sys root_dir dirs =
     filter (\<lambda>(d, k). as_Path sys (join root_dir d) \<notin> set (excludes self sys)) dirs"

text \<open>
  Lines 522 to 528: the loop over \<^verbatim>\<open>dirs\<close> that fills \<^verbatim>\<open>dirs_inodes\<close> and \<^verbatim>\<open>scandirs\<close>.
  An entry carries the identity \<^verbatim>\<open>os.stat\<close> finds for it.
\<close>

fun dedupe ::
  "(string \<times> ident) list \<Rightarrow> ident set \<Rightarrow> (string \<times> ident) list
     \<Rightarrow> ident set \<times> (string \<times> ident) list" where
  "dedupe [] dirs_inodes scandirs = (dirs_inodes, scandirs)"
| "dedupe ((dirname, dirkey) # dirs) dirs_inodes scandirs =
     (if dirkey \<notin> dirs_inodes
      then dedupe dirs (insert dirkey dirs_inodes) (scandirs @ [(dirname, dirkey)])
      else dedupe dirs dirs_inodes scandirs)"

definition scandirs_of ::
  "rpmconf \<Rightarrow> system \<Rightarrow> string \<Rightarrow> ident \<Rightarrow> ident set \<Rightarrow> (string \<times> ident) list" where
  "scandirs_of self sys root_dir i dirs_inodes =
     snd (dedupe (kept_dirs self sys root_dir (dirs_of (scandir sys i))) dirs_inodes [])"

definition inodes_after ::
  "rpmconf \<Rightarrow> system \<Rightarrow> string \<Rightarrow> ident \<Rightarrow> ident set \<Rightarrow> ident set" where
  "inodes_after self sys root_dir i dirs_inodes =
     fst (dedupe (kept_dirs self sys root_dir (dirs_of (scandir sys i))) dirs_inodes [])"

text \<open>Every identity a listing can hand out.\<close>

definition idents :: "system \<Rightarrow> ident set" where
  "idents sys = (\<Union>ie \<in> set (listing sys). snd ` set (dirs_of (snd ie)))"

lemma finite_idents: "finite (idents sys)"
  by (simp add: idents_def)

lemma dirs_of_scandir: "snd ` set (dirs_of (scandir sys i)) \<subseteq> idents sys"
proof (cases "map_of (listing sys) i")
  case None
  then show ?thesis by (simp add: scandir_def)
next
  case (Some es)
  then have "(i, es) \<in> set (listing sys)" by (rule map_of_SomeD)
  then have "snd ` set (dirs_of (snd (i, es)))
               \<subseteq> (\<Union>ie \<in> set (listing sys). snd ` set (dirs_of (snd ie)))"
    by (rule UN_upper)
  with Some show ?thesis by (simp add: scandir_def idents_def)
qed

lemma dedupe_fst: "fst (dedupe dirs seen sc) = seen \<union> snd ` set dirs"
  by (induction dirs seen sc rule: dedupe.induct) auto

lemma dedupe_nothing_new: "snd ` set dirs \<subseteq> seen \<Longrightarrow> dedupe dirs seen sc = (seen, sc)"
  by (induction dirs seen sc rule: dedupe.induct) auto

lemma dedupe_snd:
  "\<exists>new. snd (dedupe dirs seen sc) = sc @ new
         \<and> distinct (map snd new)
         \<and> snd ` set new = snd ` set dirs - seen"
proof (induction dirs seen sc rule: dedupe.induct)
  case (1 dirs_inodes scandirs)
  then show ?case by simp
next
  case (2 dirname dirkey dirs dirs_inodes scandirs)
  show ?case
  proof (cases "dirkey \<in> dirs_inodes")
    case True
    with 2 show ?thesis by auto
  next
    case False
    with 2 obtain new where
      n: "snd (dedupe dirs (insert dirkey dirs_inodes) (scandirs @ [(dirname, dirkey)]))
            = (scandirs @ [(dirname, dirkey)]) @ new"
         "distinct (map snd new)"
         "snd ` set new = snd ` set dirs - insert dirkey dirs_inodes"
      by blast
    have "distinct (map snd ((dirname, dirkey) # new))"
      using n(2,3) by (auto simp: image_iff)
    moreover have "snd ` set ((dirname, dirkey) # new)
                     = snd ` set ((dirname, dirkey) # dirs) - dirs_inodes"
      using n(3) False by auto
    moreover have "snd (dedupe ((dirname, dirkey) # dirs) dirs_inodes scandirs)
                     = scandirs @ ((dirname, dirkey) # new)"
      using n(1) False by simp
    ultimately show ?thesis by blast
  qed
qed

lemma kept_dirs_subset: "set (kept_dirs self sys root_dir dirs) \<subseteq> set dirs"
  by (auto simp: kept_dirs_def)

lemma inodes_after_mono: "seen \<subseteq> inodes_after self sys root_dir i seen"
  by (simp add: inodes_after_def dedupe_fst)

lemma scandirs_of_new:
  "distinct (map snd (scandirs_of self sys root_dir i seen))
   \<and> snd ` set (scandirs_of self sys root_dir i seen) \<inter> seen = {}
   \<and> snd ` set (scandirs_of self sys root_dir i seen) \<subseteq> idents sys
   \<and> inodes_after self sys root_dir i seen
       = seen \<union> snd ` set (scandirs_of self sys root_dir i seen)"
proof -
  let ?dirs = "kept_dirs self sys root_dir (dirs_of (scandir sys i))"
  obtain new where n: "snd (dedupe ?dirs seen []) = [] @ new" "distinct (map snd new)"
      "snd ` set new = snd ` set ?dirs - seen"
    using dedupe_snd [of ?dirs seen "[]"] by blast
  have "snd ` set ?dirs \<subseteq> idents sys"
    using kept_dirs_subset [of self sys root_dir "dirs_of (scandir sys i)"]
      dirs_of_scandir [of sys i] by blast
  with n show ?thesis
    by (auto simp: scandirs_of_def inodes_after_def dedupe_fst)
qed

text \<open>
  \<^verbatim>\<open>os.walk\<close>, top down: the directory on top of the stack is listed and given to the
  body of the \<^verbatim>\<open>for\<close> loop, which prunes \<^verbatim>\<open>dirs\<close> in place; the walk then goes on into
  the directories left in \<^verbatim>\<open>dirs\<close>, in order, before anything else on the stack. The
  result is the list of what the loop body met, in order: the path \<^verbatim>\<open>root\<close>, the
  identity of the directory that path leads to, the \<^verbatim>\<open>dirs\<close> the body left to descend
  into, and \<^verbatim>\<open>files\<close>; with it, the final \<^verbatim>\<open>dirs_inodes\<close>.
\<close>

type_synonym visit = "string \<times> ident \<times> (string \<times> ident) list \<times> string list"

function walk ::
  "rpmconf \<Rightarrow> system \<Rightarrow> (string \<times> ident) list \<Rightarrow> ident set \<Rightarrow> visit list
     \<Rightarrow> visit list \<times> ident set" where
  "walk self sys [] dirs_inodes visits = (visits, dirs_inodes)"
| "walk self sys ((root_dir, i) # stack) dirs_inodes visits =
     walk self sys
       (map (\<lambda>(d, k). (join root_dir d, k)) (scandirs_of self sys root_dir i dirs_inodes) @ stack)
       (inodes_after self sys root_dir i dirs_inodes)
       (visits @ [(root_dir, i, scandirs_of self sys root_dir i dirs_inodes,
                   files_of (scandir sys i))])"
  by pat_completeness auto

termination
proof (relation "inv_image (finite_psubset <*lex*> less_than)
                   (\<lambda>(self, sys, stack, seen, visits). (idents sys - seen, length stack))")
  show "wf (inv_image (finite_psubset <*lex*> less_than)
              (\<lambda>(self, sys, stack, seen, visits). (idents sys - seen, length stack)))"
    by auto
next
  fix self :: rpmconf and sys :: system and root_dir :: string and i :: ident
    and stack :: "(string \<times> ident) list" and dirs_inodes :: "ident set"
    and visits :: "visit list"
  let ?sc = "scandirs_of self sys root_dir i dirs_inodes"
  let ?seen' = "inodes_after self sys root_dir i dirs_inodes"
  have new: "snd ` set ?sc \<inter> dirs_inodes = {}" "snd ` set ?sc \<subseteq> idents sys"
    "?seen' = dirs_inodes \<union> snd ` set ?sc"
    using scandirs_of_new [of self sys root_dir i dirs_inodes] by auto
  have "((idents sys - ?seen', length (map (\<lambda>(d, k). (join root_dir d, k)) ?sc @ stack)),
         (idents sys - dirs_inodes, length ((root_dir, i) # stack)))
        \<in> finite_psubset <*lex*> less_than"
  proof (cases "?sc = []")
    case True
    with new(3) have "?seen' = dirs_inodes" by simp
    with True show ?thesis by simp
  next
    case False
    then obtain d k where "(d, k) \<in> set ?sc"
      by (cases ?sc) auto
    then have k: "k \<in> snd ` set ?sc" by force
    have "k \<in> idents sys" "k \<notin> dirs_inodes" "k \<in> ?seen'"
      using k new by blast+
    then have "idents sys - ?seen' \<subset> idents sys - dirs_inodes"
      using new(3) by blast
    then have "(idents sys - ?seen', idents sys - dirs_inodes) \<in> finite_psubset"
      by (simp add: finite_psubset_def finite_idents)
    then show ?thesis by simp
  qed
  then show "((self, sys, map (\<lambda>(d, k). (join root_dir d, k)) ?sc @ stack, ?seen',
          visits @ [(root_dir, i, ?sc, files_of (scandir sys i))]),
         (self, sys, (root_dir, i) # stack, dirs_inodes, visits))
        \<in> inv_image (finite_psubset <*lex*> less_than)
             (\<lambda>(self, sys, stack, seen, visits). (idents sys - seen, length stack))"
    by simp
qed
section \<open>The orphan scan: classifying and deleting\<close>

text \<open>
  \<^verbatim>\<open>os.path.splitext\<close>: the extension starts at the last dot of the last path component,
  unless only dots stand between the last slash and that dot. \<open>rfind\<close> is \<^verbatim>\<open>str.rfind\<close>:
  the last index of a character, or \<open>-1\<close>.
\<close>

definition rfind :: "char \<Rightarrow> string \<Rightarrow> int" where
  "rfind c p =
     (if c \<in> set p
      then int (length p) - 1 - int (length (takeWhile (\<lambda>x. x \<noteq> c) (rev p)))
      else - 1)"

definition splitext :: "string \<Rightarrow> string \<times> string" where
  "splitext p =
     (let sepIndex = rfind CHR ''/'' p;
          dotIndex = rfind CHR ''.'' p
      in if dotIndex > sepIndex
            \<and> list_ex (\<lambda>c. c \<noteq> CHR ''.'')
                 (take (nat (dotIndex - (sepIndex + 1))) (drop (nat (sepIndex + 1)) p))
         then (take (nat dotIndex) p, drop (nat dotIndex) p)
         else (p, []))"

text \<open>
  \<^verbatim>\<open>_clean_orphan_file\<close> returns the list \<^verbatim>\<open>[package_merge, rpmnew_rpmsave_orig,
  rpmnew_rpmsave]\<close> and \<^verbatim>\<open>file_delete\<close>; \<open>None\<close> is Python's \<^verbatim>\<open>None\<close>.
\<close>

type_synonym merge_entry = "string option \<times> string \<times> string"

definition clean_orphan_file :: "system \<Rightarrow> string \<Rightarrow> merge_entry \<times> string option" where
  "clean_orphan_file sys rpmnew_rpmsave =
     (let rpmnew_rpmsave_orig = fst (splitext rpmnew_rpmsave) in
      case dbMatch_basenames sys rpmnew_rpmsave_orig of
        [] \<Rightarrow> ((None, rpmnew_rpmsave_orig, rpmnew_rpmsave), Some rpmnew_rpmsave)
      | package_merge # _ \<Rightarrow>
          ((Some package_merge, rpmnew_rpmsave_orig, rpmnew_rpmsave), None))"

text \<open>The truth value Python gives a string or \<^verbatim>\<open>None\<close> in an \<^verbatim>\<open>if\<close>.\<close>

definition truthy :: "string option \<Rightarrow> bool" where
  "truthy v = (case v of None \<Rightarrow> False | Some s \<Rightarrow> s \<noteq> [])"

text \<open>Lines 532 to 538, for one \<^verbatim>\<open>l_name\<close>; the pair is \<^verbatim>\<open>(files_merge, files_delete)\<close>.\<close>

definition note_file ::
  "system \<Rightarrow> merge_entry list \<times> string list \<Rightarrow> string \<Rightarrow> merge_entry list \<times> string list" where
  "note_file sys acc l_name =
     (if snd (splitext l_name) \<in> set [''.rpmnew'', ''.rpmsave''] then
        (case clean_orphan_file sys l_name of
           (file_merge, file_delete) \<Rightarrow>
             (if truthy (fst file_merge) then fst acc @ [file_merge] else fst acc,
              case file_delete of
                None \<Rightarrow> snd acc
              | Some f \<Rightarrow> if f \<noteq> [] then snd acc @ [f] else snd acc))
      else acc)"

definition note_visit ::
  "system \<Rightarrow> merge_entry list \<times> string list \<Rightarrow> visit \<Rightarrow> merge_entry list \<times> string list" where
  "note_visit sys acc v =
     (case v of
        (root_dir, i, dirs, files) \<Rightarrow> foldl (note_file sys) acc (map (join root_dir) files))"

definition classify :: "system \<Rightarrow> visit list \<Rightarrow> merge_entry list \<times> string list" where
  "classify sys visits = foldl (note_visit sys) ([], []) visits"

text \<open>
  The loop over the three top directories: a top directory that is excluded is skipped,
  the install root is put in front, and the walk starts there with the \<^verbatim>\<open>dirs_inodes\<close>
  the walks before it left.
\<close>

definition rooted :: "rpmconf \<Rightarrow> system \<Rightarrow> string \<Rightarrow> string" where
  "rooted self sys topdir =
     (if truthy (root self)
      then (case root self of None \<Rightarrow> topdir | Some r \<Rightarrow> normpath sys (r @ topdir))
      else topdir)"

fun scan_tops ::
  "rpmconf \<Rightarrow> system \<Rightarrow> string list \<Rightarrow> ident set \<Rightarrow> visit list \<Rightarrow> visit list \<times> ident set" where
  "scan_tops self sys [] dirs_inodes visits = (visits, dirs_inodes)"
| "scan_tops self sys (topdir # tops) dirs_inodes visits =
     (if as_Path sys topdir \<in> set (excludes self sys)
      then scan_tops self sys tops dirs_inodes visits
      else
        case top_dir sys (rooted self sys topdir) of
          None \<Rightarrow> scan_tops self sys tops dirs_inodes visits
        | Some i \<Rightarrow>
            scan_tops self sys tops
              (snd (walk self sys [(rooted self sys topdir, i)] dirs_inodes visits))
              (fst (walk self sys [(rooted self sys topdir, i)] dirs_inodes visits)))"

definition scanned :: "rpmconf \<Rightarrow> system \<Rightarrow> visit list" where
  "scanned self sys = fst (scan_tops self sys [''/etc'', ''/var'', ''/usr''] {} [])"

text \<open>The question after the scan is asked until the answer is \<^verbatim>\<open>Y\<close>, \<^verbatim>\<open>N\<close> or empty.\<close>

fun confirm ::
  "environment \<Rightarrow> key list \<Rightarrow> world \<Rightarrow> (exc + string) \<times> world \<times> key list" where
  "confirm env [] w = (Inl EOFError, emit (Ask ''Delete these files (Y/n): '') w, [])"
| "confirm env (k # rest) w =
     (case k of
        Line s \<Rightarrow>
          if upper env s \<in> set [''Y'', ''N'', []]
          then (Inr (upper env s), emit (Ask ''Delete these files (Y/n): '') w, rest)
          else confirm env rest (emit (Ask ''Delete these files (Y/n): '') w)
      | End_of_input \<Rightarrow> (Inl EOFError, emit (Ask ''Delete these files (Y/n): '') w, rest)
      | Interrupt \<Rightarrow>
          (Inl KeyboardInterrupt, emit (Ask ''Delete these files (Y/n): '') w, rest))"

text \<open>
  Deleting what the scan found. A path in \<^verbatim>\<open>files_delete\<close> is \<^verbatim>\<open>os.path.join(root, name)\<close>
  for a visit of the walk; it names the entry \<open>name\<close> of the directory that visit listed,
  and \<^verbatim>\<open>os.unlink\<close> of the path removes that entry from that directory, under whatever
  other path the directory is reached. \<open>located\<close> finds the directory and the name for a
  path; \<open>unlink_entry\<close> is \<^verbatim>\<open>os.unlink\<close> there, which raises when the entry is gone.
  \<open>remove_listed\<close> is \<^verbatim>\<open>_remove\<close> (lines 257 to 267) on this view of the disk, and
  \<open>remove_all\<close> the loop of lines 554 and 555, which an exception leaves. (The field
  \<open>disk\<close> of the world, the view of the per-file handlers, plays no part in the scan.)
\<close>

fun located :: "visit list \<Rightarrow> string \<Rightarrow> (ident \<times> string) option" where
  "located [] path = None"
| "located ((root_dir, i, dirs, files) # visits) path =
     (case find (\<lambda>name. join root_dir name = path) files of
        Some name \<Rightarrow> Some (i, name)
      | None \<Rightarrow> located visits path)"

definition unlink_entry :: "tree \<Rightarrow> ident \<Rightarrow> string \<Rightarrow> exc + tree" where
  "unlink_entry t i name =
     (if (name, Other) \<in> set (case map_of t i of None \<Rightarrow> [] | Some es \<Rightarrow> es)
      then Inr (map (\<lambda>(k, es). if k = i then (k, filter (\<lambda>e. e \<noteq> (name, Other)) es)
                               else (k, es)) t)
      else Inl FileNotFoundError)"

definition remove_listed ::
  "rpmconf \<Rightarrow> visit list \<Rightarrow> string \<Rightarrow> tree \<Rightarrow> world \<Rightarrow> outcome \<times> tree \<times> world" where
  "remove_listed self visits conf_file t w =
     (if debug self then (Done, t, emit (Print (''rm '' @ conf_file)) w)
      else
        (case located visits conf_file of
           None \<Rightarrow> (Raised FileNotFoundError, t, w)
         | Some (i, name) \<Rightarrow>
            (case unlink_entry t i name of
               Inl e \<Rightarrow> (Raised e, t, w)
             | Inr t' \<Rightarrow> (Done, t', w))))"

fun remove_all ::
  "rpmconf \<Rightarrow> visit list \<Rightarrow> string list \<Rightarrow> tree \<Rightarrow> world \<Rightarrow> outcome \<times> tree \<times> world" where
  "remove_all self visits [] t w = (Done, t, w)"
| "remove_all self visits (file_delete # files_delete) t w =
     (case remove_listed self visits file_delete t w of
        (Done, t', w') \<Rightarrow> remove_all self visits files_delete t' w'
      | r \<Rightarrow> r)"

definition ljust :: "nat \<Rightarrow> string \<Rightarrow> string" where
  "ljust n s = s @ replicate (n - length s) CHR '' ''"

definition merge_line :: "merge_entry \<Rightarrow> event" where
  "merge_line m =
     (case m of (package_merge, _, rpmnew_rpmsave) \<Rightarrow>
        Print (ljust 20 (case package_merge of None \<Rightarrow> [] | Some n \<Rightarrow> n)
               @ '': '' @ rpmnew_rpmsave))"

definition report_merge :: "merge_entry list \<Rightarrow> world \<Rightarrow> world" where
  "report_merge files_merge w =
     (if files_merge \<noteq> [] then
        w\<lparr>out := out w
             @ [Print ''These files need merging - you may want to run 'rpmconf -a':'']
             @ map merge_line files_merge
             @ [Print ''Skipping files above.\<newline>'']\<rparr>
      else w)"

text \<open>
  \<^verbatim>\<open>_clean_orphan\<close>: the outcome, the listings it leaves, the world and the rest of the
  keyboard.
\<close>

definition clean_orphan ::
  "rpmconf \<Rightarrow> environment \<Rightarrow> system \<Rightarrow> key list \<Rightarrow> world
     \<Rightarrow> outcome \<times> tree \<times> world \<times> key list" where
  "clean_orphan self env sys inp w =
     (let files_merge = fst (classify sys (scanned self sys));
          files_delete = snd (classify sys (scanned self sys));
          w1 = w\<lparr>out := out w
                 @ map (\<lambda>topdir. Log_info (''Searching through: '' @ topdir))
                     [''/etc'', ''/var'', ''/usr'']\<rparr>;
          w2 = report_merge files_merge w1
      in if files_delete \<noteq> [] then
           (case confirm env inp
                   (w2\<lparr>out := out w2 @ [Print ''Orphaned .rpmnew and .rpmsave files:'']
                                @ map Print files_delete\<rparr>) of
              (Inl e, w3, rest) \<Rightarrow> (Raised e, listing sys, w3, rest)
            | (Inr answer, w3, rest) \<Rightarrow>
                if answer \<in> set [''Y'', []]
                then (case remove_all self (scanned self sys) files_delete (listing sys) w3 of
                        (r, t, w4) \<Rightarrow> (r, t, w4, rest))
                else (Done, listing sys, w3, rest))
         else (Done, listing sys,
               emit (Print ''No orphaned .rpmnew and .rpmsave files found.'') w2, inp))"

section \<open>What the recorded identities guarantee\<close>

text \<open>The identities the walk descended into, in order: the \<^verbatim>\<open>dirs\<close> left at each visit.\<close>

definition descents :: "visit list \<Rightarrow> ident list" where
  "descents visits = concat (map (\<lambda>v. map snd (fst (snd (snd v)))) visits)"

lemma descents_append [simp]: "descents (vs @ ws) = descents vs @ descents ws"
  by (simp add: descents_def)

lemma descents_single [simp]: "descents [(r, i, ds, fs)] = map snd ds"
  by (simp add: descents_def)

text \<open>
  What every step of the walk keeps: the identities descended into so far are pairwise
  different and recorded in \<^verbatim>\<open>dirs_inodes\<close>; they come from the listings; the number of
  visits made and pending is the number of starts and descents.
\<close>

lemma walk_invariant:
  assumes "distinct (descents visits)"
    and "set (descents visits) \<subseteq> dirs_inodes"
  shows "distinct (descents (fst (walk self sys stack dirs_inodes visits)))
       \<and> set (descents (fst (walk self sys stack dirs_inodes visits)))
           \<subseteq> snd (walk self sys stack dirs_inodes visits)
       \<and> set (descents (fst (walk self sys stack dirs_inodes visits)))
           \<subseteq> set (descents visits) \<union> idents sys
       \<and> length (fst (walk self sys stack dirs_inodes visits)) + length (descents visits)
           = length visits + length stack
             + length (descents (fst (walk self sys stack dirs_inodes visits)))"
  using assms
proof (induction self sys stack dirs_inodes visits rule: walk.induct)
  case (1 self sys dirs_inodes visits)
  then show ?case by simp
next
  case (2 self sys root_dir i stack dirs_inodes visits)
  let ?sc = "scandirs_of self sys root_dir i dirs_inodes"
  let ?seen' = "inodes_after self sys root_dir i dirs_inodes"
  let ?visits' = "visits @ [(root_dir, i, ?sc, files_of (scandir sys i))]"
  let ?stack' = "map (\<lambda>(d, k). (join root_dir d, k)) ?sc @ stack"
  have new: "distinct (map snd ?sc)" "snd ` set ?sc \<inter> dirs_inodes = {}"
    "snd ` set ?sc \<subseteq> idents sys" "?seen' = dirs_inodes \<union> snd ` set ?sc"
    using scandirs_of_new [of self sys root_dir i dirs_inodes] by auto
  have d: "distinct (descents ?visits')"
    using "2.prems" new(1,2) by auto
  have s: "set (descents ?visits') \<subseteq> ?seen'"
    using "2.prems"(2) new(4) by auto
  have w: "walk self sys ((root_dir, i) # stack) dirs_inodes visits
             = walk self sys ?stack' ?seen' ?visits'"
    by simp
  have ih: "distinct (descents (fst (walk self sys ?stack' ?seen' ?visits')))
       \<and> set (descents (fst (walk self sys ?stack' ?seen' ?visits')))
           \<subseteq> snd (walk self sys ?stack' ?seen' ?visits')
       \<and> set (descents (fst (walk self sys ?stack' ?seen' ?visits')))
           \<subseteq> set (descents ?visits') \<union> idents sys
       \<and> length (fst (walk self sys ?stack' ?seen' ?visits')) + length (descents ?visits')
           = length ?visits' + length ?stack'
             + length (descents (fst (walk self sys ?stack' ?seen' ?visits')))"
    using "2.IH" [OF d s] .
  have sub: "set (descents ?visits') \<union> idents sys \<subseteq> set (descents visits) \<union> idents sys"
    using new(3) by auto
  have len: "length (descents ?visits') = length (descents visits) + length ?sc"
            "length ?visits' = length visits + 1"
            "length ?stack' = length ?sc + length stack"
    by simp_all
  let ?r = "walk self sys ?stack' ?seen' ?visits'"
  from ih have i1: "distinct (descents (fst ?r))"
    and i2: "set (descents (fst ?r)) \<subseteq> snd ?r"
    and i3: "set (descents (fst ?r)) \<subseteq> set (descents ?visits') \<union> idents sys"
    and i4: "length (fst ?r) + length (descents ?visits')
               = length ?visits' + length ?stack' + length (descents (fst ?r))"
    by blast+
  have c3: "set (descents (fst ?r)) \<subseteq> set (descents visits) \<union> idents sys"
    using i3 sub by (rule order_trans)
  have c4: "length (fst ?r) + length (descents visits)
              = length visits + length ((root_dir, i) # stack) + length (descents (fst ?r))"
    using i4 len by simp
  show ?case
    unfolding w using i1 i2 c3 c4 by blast
qed

lemma scan_tops_invariant:
  assumes "distinct (descents visits)"
    and "set (descents visits) \<subseteq> dirs_inodes"
    and "set (descents visits) \<subseteq> idents sys"
  shows "distinct (descents (fst (scan_tops self sys tops dirs_inodes visits)))
       \<and> set (descents (fst (scan_tops self sys tops dirs_inodes visits))) \<subseteq> idents sys
       \<and> length (fst (scan_tops self sys tops dirs_inodes visits)) + length (descents visits)
           \<le> length visits + length tops
             + length (descents (fst (scan_tops self sys tops dirs_inodes visits)))"
  using assms
proof (induction tops arbitrary: dirs_inodes visits)
  case Nil
  then show ?case by simp
next
  case (Cons topdir tops)
  show ?case
  proof (cases "as_Path sys topdir \<in> set (excludes self sys)")
    case True
    with Cons.IH [OF Cons.prems] show ?thesis by auto
  next
    case False
    show ?thesis
    proof (cases "top_dir sys (rooted self sys topdir)")
      case None
      with False Cons.IH [OF Cons.prems] show ?thesis by auto
    next
      case (Some i)
      let ?w = "walk self sys [(rooted self sys topdir, i)] dirs_inodes visits"
      have inv: "distinct (descents (fst ?w))" "set (descents (fst ?w)) \<subseteq> snd ?w"
        "set (descents (fst ?w)) \<subseteq> set (descents visits) \<union> idents sys"
        "length (fst ?w) + length (descents visits)
           = length visits + length [(rooted self sys topdir, i)] + length (descents (fst ?w))"
        using walk_invariant [OF Cons.prems(1,2), of self sys "[(rooted self sys topdir, i)]"]
        by auto
      have sub: "set (descents (fst ?w)) \<subseteq> idents sys"
        using inv(3) Cons.prems(3) by auto
      have ih: "distinct (descents (fst (scan_tops self sys tops (snd ?w) (fst ?w))))
       \<and> set (descents (fst (scan_tops self sys tops (snd ?w) (fst ?w)))) \<subseteq> idents sys
       \<and> length (fst (scan_tops self sys tops (snd ?w) (fst ?w))) + length (descents (fst ?w))
           \<le> length (fst ?w) + length tops
             + length (descents (fst (scan_tops self sys tops (snd ?w) (fst ?w))))"
        using Cons.IH [OF inv(1) inv(2) sub] .
      have st: "scan_tops self sys (topdir # tops) dirs_inodes visits
                  = scan_tops self sys tops (snd ?w) (fst ?w)"
        using False Some by simp
      show ?thesis
        unfolding st using ih inv(4) by auto
    qed
  qed
qed

text \<open>
  The scan is a total function: on every directory graph, cycles included, it returns.
  The identities of the directories left in \<^verbatim>\<open>dirs\<close>, over all visits and all three top
  directories, are pairwise different, so the scan lists no more directories than there
  are top directories and identities. This bounds the descents only: the identity of a
  top directory is never put into \<^verbatim>\<open>dirs_inodes\<close>.
\<close>

lemma descents_distinct:
  "distinct (descents (scanned self sys))
   \<and> set (descents (scanned self sys)) \<subseteq> idents sys
   \<and> length (scanned self sys) \<le> 3 + card (idents sys)"
proof -
  have inv: "distinct (descents (scanned self sys))"
    "set (descents (scanned self sys)) \<subseteq> idents sys"
    "length (scanned self sys) + length (descents [])
       \<le> length ([] :: visit list) + length [''/etc'', ''/var'', ''/usr'']
           + length (descents (scanned self sys))"
    using scan_tops_invariant [of "[]" "{}" sys self "[''/etc'', ''/var'', ''/usr'']"]
    by (simp_all add: scanned_def descents_def)
  have "length (descents (scanned self sys)) = card (set (descents (scanned self sys)))"
    using inv(1) by (simp add: distinct_card)
  also have "\<dots> \<le> card (idents sys)"
    using inv(2) by (simp add: card_mono finite_idents)
  finally have "length (descents (scanned self sys)) \<le> card (idents sys)" .
  with inv show ?thesis by (simp add: descents_def)
qed
subsection \<open>What counts as the extension\<close>

text \<open>
  For a path that ends in a dot and a suffix without dot or slash, after a stem whose last
  character is neither a dot nor a slash, \<^verbatim>\<open>os.path.splitext\<close> splits at that dot:
  \<^verbatim>\<open>/etc/foo.conf.rpmnew\<close> gives \<^verbatim>\<open>/etc/foo.conf\<close> and \<^verbatim>\<open>.rpmnew\<close>.
\<close>

lemma rfind_last_occurrence:
  assumes "c \<notin> set e"
  shows "rfind c (s @ c # e) = int (length s)"
proof -
  have "takeWhile (\<lambda>x. x \<noteq> c) (rev e @ c # rev s) = rev e @ takeWhile (\<lambda>x. x \<noteq> c) (c # rev s)"
    using assms by (intro takeWhile_append2) auto
  then have "takeWhile (\<lambda>x. x \<noteq> c) (rev (s @ c # e)) = rev e"
    by simp
  then show ?thesis by (simp add: rfind_def)
qed

lemma length_takeWhile_mem:
  assumes "c \<in> set xs"
  shows "length (takeWhile (\<lambda>x. x \<noteq> c) xs) < length xs"
proof -
  have "dropWhile (\<lambda>x. x \<noteq> c) xs \<noteq> []"
    using assms by (auto simp: dropWhile_eq_Nil_conv)
  then have "0 < length (dropWhile (\<lambda>x. x \<noteq> c) xs)" by simp
  moreover have "length (takeWhile (\<lambda>x. x \<noteq> c) xs) + length (dropWhile (\<lambda>x. x \<noteq> c) xs)
                   = length xs"
    by (metis length_append takeWhile_dropWhile_id)
  ultimately show ?thesis by linarith
qed

lemma rfind_bounds: "- 1 \<le> rfind c p"
proof (cases "c \<in> set p")
  case True
  then have "length (takeWhile (\<lambda>x. x \<noteq> c) (rev p)) < length (rev p)"
    by (intro length_takeWhile_mem) simp
  then show ?thesis using True by (simp add: rfind_def)
next
  case False
  then show ?thesis by (simp add: rfind_def)
qed

lemma rfind_not_last:
  assumes "p \<noteq> []" and "last p \<noteq> c"
  shows "rfind c p + 1 < int (length p)"
proof (cases "c \<in> set p")
  case True
  have r: "rev p = last p # rev (butlast p)"
    using assms(1) by (metis append_butlast_last_id rev.simps(2) rev_append rev_rev_ident
        append_Nil rev.simps(1) append_Cons)
  have "takeWhile (\<lambda>x. x \<noteq> c) (rev p)
               = last p # takeWhile (\<lambda>x. x \<noteq> c) (rev (butlast p))"
    unfolding r using assms(2) by simp
  then have "0 < length (takeWhile (\<lambda>x. x \<noteq> c) (rev p))" by simp
  then show ?thesis using True by (simp add: rfind_def)
next
  case False
  with assms(1) show ?thesis by (cases p) (simp_all add: rfind_def)
qed

lemma splitext_suffix:
  assumes "stem \<noteq> []"
    and "last stem \<noteq> CHR ''.''"
    and "last stem \<noteq> CHR ''/''"
    and "CHR ''.'' \<notin> set e"
    and "CHR ''/'' \<notin> set e"
  shows "splitext (stem @ CHR ''.'' # e) = (stem, CHR ''.'' # e)"
proof -
  let ?p = "stem @ CHR ''.'' # e"
  have dot: "rfind CHR ''.'' ?p = int (length stem)"
    using assms(4) by (rule rfind_last_occurrence)
  have sep_eq: "rfind CHR ''/'' ?p = rfind CHR ''/'' stem"
  proof (cases "CHR ''/'' \<in> set stem")
    case True
    then obtain a b where ab: "stem = a @ CHR ''/'' # b" "CHR ''/'' \<notin> set b"
      by (meson split_list_last)
    have "rfind CHR ''/'' (a @ CHR ''/'' # (b @ CHR ''.'' # e)) = int (length a)"
      using ab(2) assms(5) by (intro rfind_last_occurrence) simp
    moreover have "rfind CHR ''/'' (a @ CHR ''/'' # b) = int (length a)"
      using ab(2) by (rule rfind_last_occurrence)
    ultimately show ?thesis by (simp add: ab(1))
  next
    case False
    with assms(5) show ?thesis by (simp add: rfind_def)
  qed
  have lo: "- 1 \<le> rfind CHR ''/'' stem" by (rule rfind_bounds)
  have hi: "rfind CHR ''/'' stem + 1 < int (length stem)"
    using assms(1,3) by (rule rfind_not_last)
  define k where "k = nat (rfind CHR ''/'' stem + 1)"
  have k: "k < length stem" using lo hi by (simp add: k_def)
  have sl: "take (nat (int (length stem) - (rfind CHR ''/'' stem + 1))) (drop k ?p) = drop k stem"
  proof -
    have "nat (int (length stem) - (rfind CHR ''/'' stem + 1)) = length stem - k"
      using lo hi by (simp add: k_def nat_diff_distrib')
    then show ?thesis using k by simp
  qed
  have "last stem \<in> set (drop k stem)"
    using k assms(1) by (metis drop_eq_Nil last_drop last_in_set not_le)
  then have ex: "list_ex (\<lambda>c. c \<noteq> CHR ''.'') (drop k stem)"
    using assms(2) by (auto simp: list_ex_iff)
  show ?thesis
    using dot sep_eq hi ex sl by (simp add: splitext_def Let_def k_def)
qed

section \<open>Orphans and files that need merging\<close>

definition recognised :: "string \<Rightarrow> bool" where
  "recognised l_name = (snd (splitext l_name) \<in> set [''.rpmnew'', ''.rpmsave''])"

definition paths_of :: "visit list \<Rightarrow> string list" where
  "paths_of visits = concat (map (\<lambda>v. map (join (fst v)) (snd (snd (snd v)))) visits)"

lemma note_file_delete:
  "l \<in> set (snd (foldl (note_file sys) acc ls)) \<longleftrightarrow>
     l \<in> set (snd acc)
     \<or> (l \<in> set ls \<and> recognised l \<and> dbMatch_basenames sys (fst (splitext l)) = [] \<and> l \<noteq> [])"
proof (induction ls arbitrary: acc)
  case Nil
  then show ?case by simp
next
  case (Cons a ls)
  have step: "l \<in> set (snd (note_file sys acc a)) \<longleftrightarrow>
                l \<in> set (snd acc)
                \<or> (l = a \<and> recognised l \<and> dbMatch_basenames sys (fst (splitext l)) = []
                    \<and> l \<noteq> [])"
    by (cases "dbMatch_basenames sys (fst (splitext a))")
       (auto simp: note_file_def clean_orphan_file_def recognised_def Let_def)
  show ?case
    using Cons.IH [of "note_file sys acc a"] step by auto
qed

lemma note_file_merge:
  "m \<in> set (fst (foldl (note_file sys) acc ls)) \<longleftrightarrow>
     m \<in> set (fst acc)
     \<or> (\<exists>l \<in> set ls. recognised l
           \<and> (\<exists>pkg more. dbMatch_basenames sys (fst (splitext l)) = pkg # more \<and> pkg \<noteq> []
                 \<and> m = (Some pkg, fst (splitext l), l)))"
proof (induction ls arbitrary: acc)
  case Nil
  then show ?case by simp
next
  case (Cons a ls)
  have step: "m \<in> set (fst (note_file sys acc a)) \<longleftrightarrow>
                m \<in> set (fst acc)
                \<or> (recognised a
                    \<and> (\<exists>pkg more. dbMatch_basenames sys (fst (splitext a)) = pkg # more
                          \<and> pkg \<noteq> [] \<and> m = (Some pkg, fst (splitext a), a)))"
    by (cases "dbMatch_basenames sys (fst (splitext a))")
       (auto simp: note_file_def clean_orphan_file_def recognised_def truthy_def Let_def)
  show ?case
    using Cons.IH [of "note_file sys acc a"] step by auto
qed

lemma foldl_note_visit:
  "foldl (note_visit sys) acc visits = foldl (note_file sys) acc (paths_of visits)"
proof (induction visits arbitrary: acc)
  case Nil
  then show ?case by (simp add: paths_of_def)
next
  case (Cons v visits)
  obtain r i ds fs where v: "v = (r, i, ds, fs)" by (cases v) auto
  have "paths_of (v # visits) = map (join r) fs @ paths_of visits"
    by (simp add: paths_of_def v)
  then show ?case
    using Cons.IH [of "note_visit sys acc v"] by (simp add: note_visit_def v)
qed

lemma classify_delete:
  "l \<in> set (snd (classify sys visits)) \<longleftrightarrow>
     l \<in> set (paths_of visits) \<and> recognised l
     \<and> dbMatch_basenames sys (fst (splitext l)) = [] \<and> l \<noteq> []"
  by (simp add: classify_def foldl_note_visit note_file_delete)

lemma classify_merge:
  "m \<in> set (fst (classify sys visits)) \<longleftrightarrow>
     (\<exists>l \<in> set (paths_of visits). recognised l
        \<and> (\<exists>pkg more. dbMatch_basenames sys (fst (splitext l)) = pkg # more \<and> pkg \<noteq> []
              \<and> m = (Some pkg, fst (splitext l), l)))"
  by (simp add: classify_def foldl_note_visit note_file_merge)

lemma path_of_visit:
  "(root_dir, i, dirs, files) \<in> set visits \<Longrightarrow> name \<in> set files \<Longrightarrow>
   join root_dir name \<in> set (paths_of visits)"
  by (force simp: paths_of_def)

text \<open>
  C6, as the code has it. Take a file met by the walk and split its path with
  \<^verbatim>\<open>os.path.splitext\<close>. If the extension is \<^verbatim>\<open>.rpmnew\<close> or \<^verbatim>\<open>.rpmsave\<close>, the base name is
  looked up: with no owning package the path is recorded in \<^verbatim>\<open>files_delete\<close>, the
  orphans, and in no entry of \<^verbatim>\<open>files_merge\<close>; with an owning package it is recorded in
  \<^verbatim>\<open>files_merge\<close> with the first owner and the base name, and not in \<^verbatim>\<open>files_delete\<close>.
  With any other extension, \<^verbatim>\<open>.rpmorig\<close> included, the path is recorded in neither list.
  Package names are taken to be non-empty, as rpm's are. The two lists are lists of path
  names: what becomes of a file on disk is not part of this statement.
\<close>

theorem orphan_classification:
  assumes "(root_dir, i, dirs, files) \<in> set (scanned self sys)"
    and "name \<in> set files"
    and "splitext (join root_dir name) = (base, ext)"
    and "\<forall>b. [] \<notin> set (dbMatch_basenames sys b)"
  shows "(ext \<in> set [''.rpmnew'', ''.rpmsave''] \<and> dbMatch_basenames sys base = [] \<longrightarrow>
            join root_dir name \<in> set (snd (classify sys (scanned self sys)))
            \<and> (\<forall>pkg b. (pkg, b, join root_dir name)
                          \<notin> set (fst (classify sys (scanned self sys)))))
       \<and> (\<forall>pkg more. ext \<in> set [''.rpmnew'', ''.rpmsave'']
              \<and> dbMatch_basenames sys base = pkg # more \<longrightarrow>
            (Some pkg, base, join root_dir name) \<in> set (fst (classify sys (scanned self sys)))
            \<and> join root_dir name \<notin> set (snd (classify sys (scanned self sys))))
       \<and> (ext \<notin> set [''.rpmnew'', ''.rpmsave''] \<longrightarrow>
            join root_dir name \<notin> set (snd (classify sys (scanned self sys)))
            \<and> (\<forall>pkg b. (pkg, b, join root_dir name)
                          \<notin> set (fst (classify sys (scanned self sys)))))"
proof (intro conjI allI impI)
  let ?l = "join root_dir name"
  have mem: "?l \<in> set (paths_of (scanned self sys))"
    using assms(1,2) by (rule path_of_visit)
  have sp: "fst (splitext ?l) = base" "snd (splitext ?l) = ext"
    using assms(3) by simp_all
  {
    assume a: "ext \<in> set [''.rpmnew'', ''.rpmsave''] \<and> dbMatch_basenames sys base = []"
    then have "ext \<noteq> []" by auto
    then have ne: "?l \<noteq> []"
      using sp(2) by (auto simp: splitext_def Let_def split: if_splits)
    show "?l \<in> set (snd (classify sys (scanned self sys)))"
      using a mem sp ne by (simp add: classify_delete recognised_def)
    fix pkg b
    show "(pkg, b, ?l) \<notin> set (fst (classify sys (scanned self sys)))"
      using a sp by (auto simp: classify_merge)
  }
  {
    fix pkg more
    assume a: "ext \<in> set [''.rpmnew'', ''.rpmsave''] \<and> dbMatch_basenames sys base = pkg # more"
    have "pkg \<in> set (dbMatch_basenames sys base)" using a by simp
    then have pk: "pkg \<noteq> []" using assms(4) by metis
    show "(Some pkg, base, ?l) \<in> set (fst (classify sys (scanned self sys)))"
      unfolding classify_merge using a mem sp pk
      by (intro bexI [of _ ?l]) (simp_all add: recognised_def)
    show "?l \<notin> set (snd (classify sys (scanned self sys)))"
      using a sp by (simp add: classify_delete)
  }
  {
    assume a: "ext \<notin> set [''.rpmnew'', ''.rpmsave'']"
    show "?l \<notin> set (snd (classify sys (scanned self sys)))"
      using a sp by (simp add: classify_delete recognised_def)
    fix pkg b
    show "(pkg, b, ?l) \<notin> set (fst (classify sys (scanned self sys)))"
      using a sp by (auto simp: classify_merge recognised_def)
  }
qed

section \<open>A directory with a link back to itself\<close>

text \<open>
  \<^verbatim>\<open>/etc\<close> holds \<^verbatim>\<open>link -> /etc\<close>, three artifacts and the directory \<^verbatim>\<open>conf.d\<close> with one
  more artifact; \<^verbatim>\<open>/var\<close> and \<^verbatim>\<open>/usr\<close> are not there. The package \<^verbatim>\<open>pkgA\<close> owns
  \<^verbatim>\<open>/etc/foo.conf\<close>; nothing else is owned.
\<close>

definition etc_tree :: system where
  "etc_tree =
     \<lparr>listing =
        [((1, 1), [(''link'', Directory (1, 1)),
                   (''foo.conf.rpmsave'', Other),
                   (''bar.conf.rpmnew'', Other),
                   (''baz.conf.rpmorig'', Other),
                   (''conf.d'', Directory (1, 2))]),
         ((1, 2), [(''old.conf.rpmnew'', Other)])],
      top_dir = (\<lambda>p. if p = ''/etc'' then Some (1, 1) else None),
      dbMatch_basenames = (\<lambda>b. if b = ''/etc/foo.conf'' then [''pkgA''] else []),
      normpath = (\<lambda>p. p),
      as_Path = (\<lambda>p. p)\<rparr>"

lemma scanned_etc_tree:
  "scanned plain etc_tree =
     [(''/etc'', (1, 1), [(''link'', (1, 1)), (''conf.d'', (1, 2))],
         [''foo.conf.rpmsave'', ''bar.conf.rpmnew'', ''baz.conf.rpmorig'']),
      (''/etc/link'', (1, 1), [],
         [''foo.conf.rpmsave'', ''bar.conf.rpmnew'', ''baz.conf.rpmorig'']),
      (''/etc/conf.d'', (1, 2), [], [''old.conf.rpmnew''])]"
  by (simp add: scanned_def rooted_def truthy_def excludes_def plain_def etc_tree_def
      scandirs_of_def inodes_after_def kept_dirs_def scandir_def join_def)

lemma splitext_examples:
  "splitext ''/etc/foo.conf.rpmsave'' = (''/etc/foo.conf'', ''.rpmsave'')"
  "splitext ''/etc/bar.conf.rpmnew'' = (''/etc/bar.conf'', ''.rpmnew'')"
  "splitext ''/etc/baz.conf.rpmorig'' = (''/etc/baz.conf'', ''.rpmorig'')"
  "splitext ''/etc/link/foo.conf.rpmsave'' = (''/etc/link/foo.conf'', ''.rpmsave'')"
  "splitext ''/etc/link/bar.conf.rpmnew'' = (''/etc/link/bar.conf'', ''.rpmnew'')"
  "splitext ''/etc/link/baz.conf.rpmorig'' = (''/etc/link/baz.conf'', ''.rpmorig'')"
  "splitext ''/etc/conf.d/old.conf.rpmnew'' = (''/etc/conf.d/old.conf'', ''.rpmnew'')"
  "splitext ''/etc/.rpmnew'' = (''/etc/.rpmnew'', [])"
  by (simp_all add: splitext_def rfind_def Let_def)

lemma classify_etc_tree:
  "classify etc_tree (scanned plain etc_tree) =
     ([(Some ''pkgA'', ''/etc/foo.conf'', ''/etc/foo.conf.rpmsave'')],
      [''/etc/bar.conf.rpmnew'', ''/etc/link/foo.conf.rpmsave'', ''/etc/link/bar.conf.rpmnew'',
       ''/etc/conf.d/old.conf.rpmnew''])"
  unfolding scanned_etc_tree
  by (simp add: classify_def note_visit_def note_file_def join_def
      splitext_examples clean_orphan_file_def truthy_def etc_tree_def)

lemma descents_etc_tree:
  "descents (scanned plain etc_tree) = [(1, 1), (1, 2)]"
  by (simp add: scanned_etc_tree descents_def)

lemma listing_etc_tree:
  "listing etc_tree =
     [((1, 1), [(''link'', Directory (1, 1)),
                (''foo.conf.rpmsave'', Other),
                (''bar.conf.rpmnew'', Other),
                (''baz.conf.rpmorig'', Other),
                (''conf.d'', Directory (1, 2))]),
      ((1, 2), [(''old.conf.rpmnew'', Other)])]"
  by (simp add: etc_tree_def)

text \<open>
  The answer \<^verbatim>\<open>y\<close> to the question: the four paths are unlinked in the order of the list.
  The second path reaches, through the link, the file the first visit recorded as needing a
  merge; the third names a file the first path has already removed.
\<close>

lemma remove_all_etc_tree:
  "remove_all plain (scanned plain etc_tree)
     [''/etc/bar.conf.rpmnew'', ''/etc/link/foo.conf.rpmsave'', ''/etc/link/bar.conf.rpmnew'',
      ''/etc/conf.d/old.conf.rpmnew'']
     (listing etc_tree) w =
   (Raised FileNotFoundError,
    [((1, 1), [(''link'', Directory (1, 1)),
               (''baz.conf.rpmorig'', Other),
               (''conf.d'', Directory (1, 2))]),
     ((1, 2), [(''old.conf.rpmnew'', Other)])],
    w)"
  unfolding scanned_etc_tree listing_etc_tree
  by (simp add: remove_listed_def unlink_entry_def plain_def join_def)

lemma ljust_pkgA: "ljust 20 ''pkgA'' = ''pkgA                ''"
  by (simp add: ljust_def numeral_eq_Suc)

lemma clean_orphan_etc_tree:
  "clean_orphan plain quiet_env etc_tree [Line ''y''] \<lparr>disk = Map.empty, out = []\<rparr> =
   (Raised FileNotFoundError,
    [((1, 1), [(''link'', Directory (1, 1)),
               (''baz.conf.rpmorig'', Other),
               (''conf.d'', Directory (1, 2))]),
     ((1, 2), [(''old.conf.rpmnew'', Other)])],
    \<lparr>disk = Map.empty,
     out = [Log_info ''Searching through: /etc'',
            Log_info ''Searching through: /var'',
            Log_info ''Searching through: /usr'',
            Print ''These files need merging - you may want to run 'rpmconf -a':'',
            Print ''pkgA                : /etc/foo.conf.rpmsave'',
            Print ''Skipping files above.\<newline>'',
            Print ''Orphaned .rpmnew and .rpmsave files:'',
            Print ''/etc/bar.conf.rpmnew'',
            Print ''/etc/link/foo.conf.rpmsave'',
            Print ''/etc/link/bar.conf.rpmnew'',
            Print ''/etc/conf.d/old.conf.rpmnew'',
            Ask ''Delete these files (Y/n): '']\<rparr>,
    [])"
  by (simp add: clean_orphan_def classify_etc_tree remove_all_etc_tree report_merge_def
      merge_line_def ljust_pkgA emit_def upper_def is_ascii_def upper_char_def
      del: remove_all.simps)

text \<open>
  C7. The scan returns on every directory graph (it is a total function, and
  \<open>descents_distinct\<close> bounds its length), but it does not list each directory identity at
  most once. Lines 523 to 528 record the identities of the subdirectories only; the
  identity of the top directory the walk starts from is never put into \<^verbatim>\<open>dirs_inodes\<close>. With
  \<^verbatim>\<open>/etc/link -> /etc\<close> the directory of identity \<open>(1, 1)\<close> is therefore listed twice, as
  \<^verbatim>\<open>/etc\<close> and as \<^verbatim>\<open>/etc/link\<close>, and each artifact in it is met twice. The second time the
  rpm database is asked for \<^verbatim>\<open>/etc/link/foo.conf\<close>, which no package owns: the file of
  \<^verbatim>\<open>pkgA\<close> is listed among the orphans as well, the answer \<^verbatim>\<open>y\<close> unlinks it, and the run
  ends with \<^verbatim>\<open>FileNotFoundError\<close> at \<^verbatim>\<open>/etc/link/bar.conf.rpmnew\<close>, a second name of a file
  already removed, before \<^verbatim>\<open>/etc/conf.d/old.conf.rpmnew\<close> is reached.
\<close>

theorem top_directory_listed_twice:
  "map (\<lambda>v. (fst v, fst (snd v))) (scanned plain etc_tree) =
     [(''/etc'', (1, 1)), (''/etc/link'', (1, 1)), (''/etc/conf.d'', (1, 2))]
   \<and> classify etc_tree (scanned plain etc_tree) =
       ([(Some ''pkgA'', ''/etc/foo.conf'', ''/etc/foo.conf.rpmsave'')],
        [''/etc/bar.conf.rpmnew'', ''/etc/link/foo.conf.rpmsave'',
         ''/etc/link/bar.conf.rpmnew'', ''/etc/conf.d/old.conf.rpmnew''])
   \<and> fst (clean_orphan plain quiet_env etc_tree [Line ''y''] \<lparr>disk = Map.empty, out = []\<rparr>) =
       Raised FileNotFoundError
   \<and> fst (snd (clean_orphan plain quiet_env etc_tree [Line ''y'']
                  \<lparr>disk = Map.empty, out = []\<rparr>)) =
       [((1, 1), [(''link'', Directory (1, 1)),
                  (''baz.conf.rpmorig'', Other),
                  (''conf.d'', Directory (1, 2))]),
        ((1, 2), [(''old.conf.rpmnew'', Other)])]"
  using classify_etc_tree by (simp add: scanned_etc_tree clean_orphan_etc_tree)

text \<open>C6 on this tree: the two artifacts of \<^verbatim>\<open>/etc\<close>, one owned and one not.\<close>

theorem orphan_classification_witness:
  "(''/etc'', (1, 1), [(''link'', (1, 1)), (''conf.d'', (1, 2))],
      [''foo.conf.rpmsave'', ''bar.conf.rpmnew'', ''baz.conf.rpmorig''])
     \<in> set (scanned plain etc_tree)
   \<and> splitext (join ''/etc'' ''foo.conf.rpmsave'') = (''/etc/foo.conf'', ''.rpmsave'')
   \<and> splitext (join ''/etc'' ''bar.conf.rpmnew'') = (''/etc/bar.conf'', ''.rpmnew'')
   \<and> splitext (join ''/etc'' ''baz.conf.rpmorig'') = (''/etc/baz.conf'', ''.rpmorig'')
   \<and> dbMatch_basenames etc_tree ''/etc/foo.conf'' = [''pkgA'']
   \<and> dbMatch_basenames etc_tree ''/etc/bar.conf'' = []
   \<and> (Some ''pkgA'', ''/etc/foo.conf'', ''/etc/foo.conf.rpmsave'')
        \<in> set (fst (classify etc_tree (scanned plain etc_tree)))
   \<and> ''/etc/foo.conf.rpmsave'' \<notin> set (snd (classify etc_tree (scanned plain etc_tree)))
   \<and> ''/etc/bar.conf.rpmnew'' \<in> set (snd (classify etc_tree (scanned plain etc_tree)))
   \<and> ''/etc/baz.conf.rpmorig'' \<notin> set (snd (classify etc_tree (scanned plain etc_tree)))"
proof -
  let ?fs = "[''foo.conf.rpmsave'', ''bar.conf.rpmnew'', ''baz.conf.rpmorig'']"
  let ?v = "(''/etc'', (1::nat, 1::nat), [(''link'', (1::nat, 1::nat)), (''conf.d'', (1, 2))],
             ?fs)"
  have h1: "?v \<in> set (scanned plain etc_tree)"
    by (simp add: scanned_etc_tree)
  have h2a: "''foo.conf.rpmsave'' \<in> set ?fs" by simp
  have h2b: "''bar.conf.rpmnew'' \<in> set ?fs" by simp
  have h2c: "''baz.conf.rpmorig'' \<in> set ?fs" by simp
  have h3a: "splitext (join ''/etc'' ''foo.conf.rpmsave'') = (''/etc/foo.conf'', ''.rpmsave'')"
    by (simp add: join_def splitext_examples)
  have h3b: "splitext (join ''/etc'' ''bar.conf.rpmnew'') = (''/etc/bar.conf'', ''.rpmnew'')"
    by (simp add: join_def splitext_examples)
  have h3c: "splitext (join ''/etc'' ''baz.conf.rpmorig'') = (''/etc/baz.conf'', ''.rpmorig'')"
    by (simp add: join_def splitext_examples)
  have h4: "\<forall>b. [] \<notin> set (dbMatch_basenames etc_tree b)"
    by (simp add: etc_tree_def)
  have o1: "dbMatch_basenames etc_tree ''/etc/foo.conf'' = [''pkgA'']"
    by (simp add: etc_tree_def)
  have o2: "dbMatch_basenames etc_tree ''/etc/bar.conf'' = []"
    by (simp add: etc_tree_def)
  have j: "join ''/etc'' ''foo.conf.rpmsave'' = ''/etc/foo.conf.rpmsave''"
          "join ''/etc'' ''bar.conf.rpmnew'' = ''/etc/bar.conf.rpmnew''"
          "join ''/etc'' ''baz.conf.rpmorig'' = ''/etc/baz.conf.rpmorig''"
    by (simp_all add: join_def)
  from orphan_classification [OF h1 h2a h3a h4] o1 j
  have a: "(Some ''pkgA'', ''/etc/foo.conf'', ''/etc/foo.conf.rpmsave'')
             \<in> set (fst (classify etc_tree (scanned plain etc_tree)))
           \<and> ''/etc/foo.conf.rpmsave'' \<notin> set (snd (classify etc_tree (scanned plain etc_tree)))"
    by simp
  from orphan_classification [OF h1 h2b h3b h4] o2 j
  have b: "''/etc/bar.conf.rpmnew'' \<in> set (snd (classify etc_tree (scanned plain etc_tree)))"
    by simp
  from orphan_classification [OF h1 h2c h3c h4] j
  have c: "''/etc/baz.conf.rpmorig'' \<notin> set (snd (classify etc_tree (scanned plain etc_tree)))"
    by simp
  from a b c h1 h3a h3b h3c o1 o2 show ?thesis by simp
qed

text \<open>
  C6 as stated fails in two ways on this tree. \<^verbatim>\<open>/etc/baz.conf.rpmorig\<close> is met by the walk,
  its extension is \<^verbatim>\<open>.rpmorig\<close> and no package owns \<^verbatim>\<open>/etc/baz.conf\<close>, yet it is recorded
  neither as an orphan nor as needing a merge. And \<^verbatim>\<open>/etc/foo.conf.rpmsave\<close>, whose base name
  \<^verbatim>\<open>pkgA\<close> owns, is recorded as needing a merge and is deleted all the same: after the
  answer \<^verbatim>\<open>y\<close> the directory of identity \<open>(1, 1)\<close> no longer holds it, because the walk met
  the file again as \<^verbatim>\<open>/etc/link/foo.conf.rpmsave\<close>.
\<close>

theorem orphan_classification_counterexample:
  "''/etc/baz.conf.rpmorig'' \<in> set (paths_of (scanned plain etc_tree))
   \<and> splitext ''/etc/baz.conf.rpmorig'' = (''/etc/baz.conf'', ''.rpmorig'')
   \<and> dbMatch_basenames etc_tree ''/etc/baz.conf'' = []
   \<and> ''/etc/baz.conf.rpmorig'' \<notin> set (snd (classify etc_tree (scanned plain etc_tree)))
   \<and> ''/etc/baz.conf.rpmorig''
        \<notin> (\<lambda>m. snd (snd m)) ` set (fst (classify etc_tree (scanned plain etc_tree)))
   \<and> (Some ''pkgA'', ''/etc/foo.conf'', ''/etc/foo.conf.rpmsave'')
        \<in> set (fst (classify etc_tree (scanned plain etc_tree)))
   \<and> map_of (listing etc_tree) (1, 1) =
        Some [(''link'', Directory (1, 1)), (''foo.conf.rpmsave'', Other),
              (''bar.conf.rpmnew'', Other), (''baz.conf.rpmorig'', Other),
              (''conf.d'', Directory (1, 2))]
   \<and> map_of (fst (snd (clean_orphan plain quiet_env etc_tree [Line ''y'']
                         \<lparr>disk = Map.empty, out = []\<rparr>))) (1, 1) =
        Some [(''link'', Directory (1, 1)), (''baz.conf.rpmorig'', Other),
              (''conf.d'', Directory (1, 2))]"
proof -
  have p: "''/etc/baz.conf.rpmorig'' \<in> set (paths_of (scanned plain etc_tree))"
    unfolding scanned_etc_tree by (simp add: paths_of_def join_def)
  have d: "dbMatch_basenames etc_tree ''/etc/baz.conf'' = []"
    by (simp add: etc_tree_def)
  show ?thesis
    by (simp add: classify_etc_tree p d splitext_examples clean_orphan_etc_tree
        listing_etc_tree)
qed

end
